theory Spec2Isabelle
  imports Complex_Main
begin

section \<open>Python strings\<close>

text \<open>
  A Python \<open>str\<close> is modelled as a \<open>string\<close>, each \<open>char\<close> read as one code point
  in the range U+0000..U+00FF (Latin-1), so that the accented letters of the region
  names (\<open>CHR 0xED\<close> is the letter i with acute accent) are single characters, as they
  are in Python. The character classes below are those of CPython on that range.
\<close>

definition is_space :: "char \<Rightarrow> bool" where
  \<comment> \<open>\<open>str.isspace\<close>, also the class \<open>\s\<close> of \<open>re\<close> on a \<open>str\<close> pattern\<close>
  "is_space c =
     (let n = (of_char c :: nat)
      in (9 \<le> n \<and> n \<le> 13) \<or> (28 \<le> n \<and> n \<le> 32) \<or> n = 133 \<or> n = 160)"

definition is_word :: "char \<Rightarrow> bool" where
  \<comment> \<open>the class \<open>\w\<close> of \<open>re\<close> on a \<open>str\<close> pattern: \<open>str.isalnum\<close> or the underscore\<close>
  "is_word c =
     (let n = (of_char c :: nat)
      in (48 \<le> n \<and> n \<le> 57) \<or> (65 \<le> n \<and> n \<le> 90) \<or> n = 95 \<or> (97 \<le> n \<and> n \<le> 122)
         \<or> n = 170 \<or> n = 178 \<or> n = 179 \<or> n = 181 \<or> n = 185 \<or> n = 186
         \<or> n = 188 \<or> n = 189 \<or> n = 190
         \<or> (192 \<le> n \<and> n \<le> 214) \<or> (216 \<le> n \<and> n \<le> 246) \<or> (248 \<le> n \<and> n \<le> 255))"

definition is_digit :: "char \<Rightarrow> bool" where
  \<comment> \<open>the class \<open>\d\<close> of \<open>re\<close>\<close>
  "is_digit c = (let n = (of_char c :: nat) in 48 \<le> n \<and> n \<le> 57)"

definition lower_char :: "char \<Rightarrow> char" where
  "lower_char c =
     (let n = (of_char c :: nat)
      in if (65 \<le> n \<and> n \<le> 90) \<or> (192 \<le> n \<and> n \<le> 222 \<and> n \<noteq> 215)
         then char_of (n + 32) else c)"

definition lower :: "string \<Rightarrow> string" where
  \<comment> \<open>\<open>str.lower\<close>\<close>
  "lower s = map lower_char s"

definition strip_chars :: "(char \<Rightarrow> bool) \<Rightarrow> string \<Rightarrow> string" where
  "strip_chars P s = rev (dropWhile P (rev (dropWhile P s)))"

definition strip :: "string \<Rightarrow> string" where
  \<comment> \<open>\<open>str.strip()\<close>\<close>
  "strip s = strip_chars is_space s"

fun is_prefix :: "string \<Rightarrow> string \<Rightarrow> bool" where
  "is_prefix [] s = True"
| "is_prefix (p # ps) [] = False"
| "is_prefix (p # ps) (c # cs) = (p = c \<and> is_prefix ps cs)"

fun contains :: "string \<Rightarrow> string \<Rightarrow> bool" where
  \<comment> \<open>\<open>contains s p\<close> is Python's \<open>p in s\<close>\<close>
  "contains [] p = (p = [])"
| "contains (c # cs) p = (is_prefix p (c # cs) \<or> contains cs p)"

fun sub_runs :: "(char \<Rightarrow> bool) \<Rightarrow> char \<Rightarrow> bool \<Rightarrow> string \<Rightarrow> string" where
  \<comment> \<open>\<open>re.sub(r'X+', r, s)\<close>: every maximal run of characters of the class becomes the
      one character \<open>r\<close>; the flag says that the previous character was in a run\<close>
  "sub_runs P r in_run [] = []"
| "sub_runs P r in_run (c # cs) =
     (if P c then (if in_run then sub_runs P r True cs else r # sub_runs P r True cs)
      else c # sub_runs P r False cs)"

definition sub_each :: "(char \<Rightarrow> bool) \<Rightarrow> string \<Rightarrow> string" where
  \<comment> \<open>\<open>re.sub(r'[X]', '_', s)\<close>: every character of the class becomes an underscore\<close>
  "sub_each P s = map (\<lambda>c. if P c then CHR ''_'' else c) s"

section \<open>DataCleaner: column names\<close>

definition standardize_name :: "string \<Rightarrow> string" where
  \<comment> \<open>the body of the loop of \<open>_standardize_column_names\<close>\<close>
  "standardize_name col =
     (let new_col = lower col;
          new_col = sub_each (\<lambda>c. \<not> is_word c \<and> \<not> is_space c) new_col;
          new_col = sub_runs is_space (CHR ''_'') False new_col;
          new_col = sub_runs (\<lambda>c. c = CHR ''_'') (CHR ''_'') False new_col;
          new_col = strip_chars (\<lambda>c. c = CHR ''_'') new_col
      in new_col)"


section \<open>Tabular datasets\<close>

text \<open>
  A pandas \<open>DataFrame\<close> restricted to the scalars of the specification's data model:
  strings, numbers and the missing value. Numbers are exact rationals (the rounding of
  IEEE doubles is outside the model); \<open>None\<close> and \<open>NaN\<close> are the one missing value
  \<open>NaN\<close>. A column carries its dtype, since the code branches on it. The row labels
  (\<open>index\<close>) are kept, since pandas aligns boolean masks on them. Looking a column up by
  name takes the first column of that name; frames with repeated column names are outside
  the model (see \<open>well_formed\<close>). Where an operation aligns two series on their row
  labels, the labels are taken to be distinct, as they are in a frame read from a file and
  in every selection of its rows.
\<close>

datatype cell = NaN | Num rat | Str string

datatype dtype = ObjectDT | IntDT | FloatDT

record column =
  cname :: string
  dtype :: dtype
  cells :: "cell list"

record dataframe =
  index :: "int list"
  columns :: "column list"

datatype error =
    TransformationError string   \<comment> \<open>carries \<open>transformation_step\<close>\<close>
  | ValidationError string       \<comment> \<open>carries \<open>validation_rule\<close>\<close>
  | TypeError
  | AttributeError

definition on_ok :: "error + 'a \<Rightarrow> ('a \<Rightarrow> error + 'b) \<Rightarrow> error + 'b" where
  \<comment> \<open>sequencing: an exception raised by the first part skips the rest\<close>
  "on_ok r f = (case r of Inl e \<Rightarrow> Inl e | Inr x \<Rightarrow> f x)"

definition reraise_as :: "error \<Rightarrow> error + 'a \<Rightarrow> error + 'a" where
  \<comment> \<open>\<open>try: ... except Exception as e: raise E(...)\<close>\<close>
  "reraise_as e' r = (case r of Inl e \<Rightarrow> Inl e' | Inr x \<Rightarrow> Inr x)"

definition is_str :: "cell \<Rightarrow> bool" where
  "is_str x = (case x of Str s \<Rightarrow> True | _ \<Rightarrow> False)"

definition well_formed :: "dataframe \<Rightarrow> bool" where
  \<comment> \<open>every column has one cell per row and a column of a numeric dtype holds no string,
      as in every \<open>DataFrame\<close>; no column name is repeated\<close>
  "well_formed d =
     (list_all (\<lambda>c. length (cells c) = length (index d)) (columns d)
      \<and> distinct (map cname (columns d))
      \<and> list_all (\<lambda>c. dtype c \<noteq> ObjectDT \<longrightarrow> list_all (\<lambda>x. \<not> is_str x) (cells c)) (columns d))"

definition len :: "dataframe \<Rightarrow> nat" where
  "len d = length (index d)"

definition column_names :: "dataframe \<Rightarrow> string list" where
  "column_names d = map cname (columns d)"

definition get_col :: "dataframe \<Rightarrow> string \<Rightarrow> column option" where
  \<comment> \<open>\<open>data[name]\<close>\<close>
  "get_col d name = find (\<lambda>c. cname c = name) (columns d)"

definition empty :: "dataframe \<Rightarrow> bool" where
  \<comment> \<open>\<open>data.empty\<close>: some axis has length 0\<close>
  "empty d = (index d = [] \<or> columns d = [])"

definition isna :: "cell \<Rightarrow> bool" where
  "isna x = (x = NaN)"

definition is_numeric_dtype :: "dtype \<Rightarrow> bool" where
  "is_numeric_dtype t = (t \<noteq> ObjectDT)"

fun bool_index :: "bool list \<Rightarrow> 'a list \<Rightarrow> 'a list" where
  "bool_index (b # bs) (x # xs) = (if b then x # bool_index bs xs else bool_index bs xs)"
| "bool_index bs xs = []"

definition select_rows :: "bool list \<Rightarrow> dataframe \<Rightarrow> dataframe" where
  \<comment> \<open>\<open>data[msk]\<close> for a mask in the row order of \<open>data\<close>\<close>
  "select_rows msk d =
     \<lparr>index = bool_index msk (index d),
      columns = map (\<lambda>c. c\<lparr>cells := bool_index msk (cells c)\<rparr>) (columns d)\<rparr>"

definition take_rows :: "nat list \<Rightarrow> dataframe \<Rightarrow> dataframe" where
  \<comment> \<open>the rows at the given positions, in that order\<close>
  "take_rows ps d =
     \<lparr>index = map (\<lambda>i. index d ! i) ps,
      columns = map (\<lambda>c. c\<lparr>cells := map (\<lambda>i. cells c ! i) ps\<rparr>) (columns d)\<rparr>"

definition row_values :: "dataframe \<Rightarrow> nat \<Rightarrow> cell list" where
  "row_values d i = map (\<lambda>c. cells c ! i) (columns d)"

definition rows :: "dataframe \<Rightarrow> cell list list" where
  "rows d = map (row_values d) [0..<len d]"

fun duplicated :: "'a list \<Rightarrow> 'a list \<Rightarrow> bool list" where
  \<comment> \<open>\<open>data.duplicated()\<close>: a row equal to an earlier one; the first argument holds the
      rows seen so far; missing values compare equal, as pandas has it here\<close>
  "duplicated seen [] = []"
| "duplicated seen (r # rs) = (r \<in> set seen) # duplicated (r # seen) rs"

definition drop_duplicates :: "dataframe \<Rightarrow> dataframe" where
  "drop_duplicates d = select_rows (map Not (duplicated [] (rows d))) d"

definition dropna_subset :: "string \<Rightarrow> dataframe \<Rightarrow> dataframe" where
  \<comment> \<open>\<open>data.dropna(subset=[col])\<close>, for a column that exists\<close>
  "dropna_subset col d =
     (case get_col d col of
        None \<Rightarrow> d
      | Some c \<Rightarrow> select_rows (map (\<lambda>x. \<not> isna x) (cells c)) d)"

definition compare_col :: "(rat \<Rightarrow> bool) \<Rightarrow> column \<Rightarrow> error + bool list" where
  \<comment> \<open>\<open>series < k\<close> and the like against a number: a missing value gives False, a string
      cell makes the comparison raise \<open>TypeError\<close>\<close>
  "compare_col P c =
     (if list_ex is_str (cells c) then Inl TypeError
      else Inr (map (\<lambda>x. case x of Num r \<Rightarrow> P r | _ \<Rightarrow> False) (cells c)))"

definition count_true :: "bool list \<Rightarrow> nat" where
  "count_true bs = length (filter id bs)"

section \<open>DataQualityValidator\<close>

datatype message =
    DataFrameIsEmpty
  | RequiredColumnNotFound string "string list"
  | MissingRequiredColumns "string list"
  | CompletelyEmptyColumns "string list"
  | InvalidGraduationYears nat
  | InvalidGraduateQuantities nat
  | InvalidRegionNames nat
  | ExpectedType string string dtype

record DataQualityReport =
  total_records :: int
  valid_records :: int
  invalid_records :: int
  missing_values_by_column :: "(string \<times> nat) list"
  duplicate_records :: nat
  data_types_issues :: "message list"
  validation_errors :: "message list"

definition data_quality_score :: "DataQualityReport \<Rightarrow> rat" where
  "data_quality_score r =
     (if total_records r = 0 then 0
      else (of_int (valid_records r) / of_int (total_records r)) * 100)"

definition expected_columns :: "(string \<times> string) list" where
  "expected_columns =
     [(''codigo_institucion'', ''string''), (''nombre_institucion'', ''string''),
      (''region'', ''string''), (''carrera'', ''string''),
      (''ano_titulacion'', ''integer''), (''cantidad_titulados'', ''integer'')]"

definition year_range :: "rat \<times> rat" where
  "year_range = (1990, 2030)"

definition quantity_range :: "rat \<times> rat" where
  "quantity_range = (0, 10000)"

definition required_columns :: "string list" where
  "required_columns = [''region'', ''ano_titulacion'']"

definition validate_structure :: "dataframe \<Rightarrow> bool \<times> message list" where
  "validate_structure d =
     (if empty d then (False, [DataFrameIsEmpty])
      else
        let absent = filter (\<lambda>col. col \<notin> set (column_names d)) required_columns;
            similar_cols = (\<lambda>col. filter (\<lambda>c. contains (lower c) (lower col)) (column_names d));
            errors = map (\<lambda>col. RequiredColumnNotFound col (similar_cols col))
                       (filter (\<lambda>col. similar_cols col \<noteq> []) absent);
            missing_required = filter (\<lambda>col. similar_cols col = []) absent;
            errors = (if missing_required \<noteq> [] then errors @ [MissingRequiredColumns missing_required]
                      else errors);
            empty_columns = map cname (filter (\<lambda>c. list_all isna (cells c)) (columns d));
            errors = (if empty_columns \<noteq> [] then errors @ [CompletelyEmptyColumns empty_columns]
                      else errors)
        in (errors = [], errors))"

definition analyze_missing_values :: "dataframe \<Rightarrow> (string \<times> nat) list" where
  "analyze_missing_values d =
     filter (\<lambda>(n, k). k > 0) (map (\<lambda>c. (cname c, length (filter isna (cells c)))) (columns d))"

definition validate_data_types :: "dataframe \<Rightarrow> message list" where
  "validate_data_types d =
     concat (map (\<lambda>(col, expected_type).
        case get_col d col of
          None \<Rightarrow> []
        | Some c \<Rightarrow>
            if expected_type = ''integer'' then
              (if \<not> (dtype c = IntDT) \<and> \<not> is_numeric_dtype (dtype c)
               then [ExpectedType col ''integer'' (dtype c)] else [])
            else if expected_type = ''string'' then
              (if \<not> (dtype c = ObjectDT) then [ExpectedType col ''string'' (dtype c)] else [])
            else if expected_type = ''float'' then
              (if \<not> is_numeric_dtype (dtype c) then [ExpectedType col ''float'' (dtype c)] else [])
            else []) expected_columns)"

definition str_accessor :: "column \<Rightarrow> error + cell list" where
  \<comment> \<open>\<open>series.str\<close>: pandas raises \<open>AttributeError\<close> unless the column has dtype object and
      its non-missing values include a string (or there is none)\<close>
  "str_accessor c =
     (if dtype c = ObjectDT \<and> (list_ex is_str (cells c) \<or> list_all isna (cells c))
      then Inr (cells c) else Inl AttributeError)"

definition only_digits :: "string \<Rightarrow> bool" where
  \<comment> \<open>\<open>re.search(r'^\d+$', s)\<close>: \<open>$\<close> also matches before a final newline\<close>
  "only_digits s =
     (let t = (if s \<noteq> [] \<and> last s = CHR 0x0A then butlast s else s)
      in t \<noteq> [] \<and> list_all is_digit t)"

definition invalid_region :: "cell \<Rightarrow> bool" where
  \<comment> \<open>\<open>(str.len() < 3) | str.contains(r'^\d+$', na=False)\<close> on one cell of an object column:
      both are false on a cell that is not a string\<close>
  "invalid_region x = (case x of Str s \<Rightarrow> length s < 3 \<or> only_digits s | _ \<Rightarrow> False)"

definition check_years :: "dataframe \<Rightarrow> message list \<Rightarrow> error + message list" where
  \<comment> \<open>the block \<open>if 'ano_titulacion' in data.columns\<close> of \<open>_validate_business_rules\<close>\<close>
  "check_years d errors =
     (case get_col d ''ano_titulacion'' of
        None \<Rightarrow> Inr errors
      | Some c \<Rightarrow>
          on_ok (compare_col (\<lambda>y. y < fst year_range \<or> y > snd year_range) c)
            (\<lambda>invalid_years.
               Inr (if count_true invalid_years > 0
                    then errors @ [InvalidGraduationYears (count_true invalid_years)]
                    else errors)))"

definition check_quantities :: "dataframe \<Rightarrow> message list \<Rightarrow> error + message list" where
  \<comment> \<open>the block \<open>if 'cantidad_titulados' in data.columns\<close>\<close>
  "check_quantities d errors =
     (case get_col d ''cantidad_titulados'' of
        None \<Rightarrow> Inr errors
      | Some c \<Rightarrow>
          on_ok (compare_col (\<lambda>q. q < fst quantity_range \<or> q > snd quantity_range) c)
            (\<lambda>invalid_quantities.
               Inr (if count_true invalid_quantities > 0
                    then errors @ [InvalidGraduateQuantities (count_true invalid_quantities)]
                    else errors)))"

definition check_regions :: "dataframe \<Rightarrow> message list \<Rightarrow> error + message list" where
  \<comment> \<open>the block \<open>if 'region' in data.columns\<close>\<close>
  "check_regions d errors =
     (case get_col d ''region'' of
        None \<Rightarrow> Inr errors
      | Some c \<Rightarrow>
          on_ok (str_accessor c)
            (\<lambda>xs. let invalid_regions = map invalid_region xs
                  in Inr (if count_true invalid_regions > 0
                          then errors @ [InvalidRegionNames (count_true invalid_regions)]
                          else errors)))"

definition validate_business_rules :: "dataframe \<Rightarrow> error + message list" where
  "validate_business_rules d =
     on_ok (check_years d [])
       (\<lambda>errors. on_ok (check_quantities d errors) (\<lambda>errors. check_regions d errors))"

definition detect_duplicates :: "dataframe \<Rightarrow> nat" where
  "detect_duplicates d = count_true (duplicated [] (rows d))"

definition sample_size :: "dataframe \<Rightarrow> nat" where
  "sample_size d = min 1000 (len d)"

definition valid_sample :: "nat list \<Rightarrow> dataframe \<Rightarrow> bool" where
  \<comment> \<open>what \<open>data.sample(n=sample_size)\<close> may return: \<open>sample_size\<close> distinct row positions\<close>
  "valid_sample picks d =
     (length picks = sample_size d \<and> distinct picks \<and> list_all (\<lambda>i. i < len d) picks)"

definition iterrows :: "dataframe \<Rightarrow> (string \<times> cell) list list" where
  \<comment> \<open>\<open>row.to_dict()\<close> of every row, in order\<close>
  "iterrows d = map (\<lambda>i. zip (column_names d) (row_values d i)) [0..<len d]"

definition mapped_dict :: "(string \<times> cell) list \<Rightarrow> (string \<times> cell option) list" where
  "mapped_dict record_dict =
     map (\<lambda>(key, v). if isna v then (key, None) else (key, Some v)) record_dict"

definition record_counted :: "(string \<times> cell) list \<Rightarrow> bool" where
  \<comment> \<open>the test \<open>all(key in mapped_dict for key in ['region'])\<close>\<close>
  "record_counted record_dict =
     list_all (\<lambda>key. key \<in> set (map fst (mapped_dict record_dict))) [''region'']"

definition py_int :: "rat \<Rightarrow> int" where
  \<comment> \<open>Python's \<open>int(x)\<close>: towards zero\<close>
  "py_int x = (if x \<ge> 0 then \<lfloor>x\<rfloor> else \<lceil>x\<rceil>)"

definition sample_data :: "nat list \<Rightarrow> dataframe \<Rightarrow> dataframe" where
  \<comment> \<open>\<open>data.sample(n=sample_size) if len(data) > sample_size else data\<close>; \<open>picks\<close> is the
      random choice of \<open>data.sample\<close>\<close>
  "sample_data picks d = (if len d > sample_size d then take_rows picks d else d)"

definition valid_count :: "dataframe \<Rightarrow> nat" where
  \<comment> \<open>the loop over \<open>sample_data.iterrows()\<close>\<close>
  "valid_count sample = length (filter record_counted (iterrows sample))"

definition validate_records :: "nat list \<Rightarrow> dataframe \<Rightarrow> int" where
  "validate_records picks d =
     (if len d > sample_size d
      then let validation_rate = (of_nat (valid_count (sample_data picks d)) :: rat) / of_nat (sample_size d)
           in py_int (of_nat (len d) * validation_rate)
      else int (valid_count (sample_data picks d)))"

definition validate :: "nat list \<Rightarrow> dataframe \<Rightarrow> error + DataQualityReport" where
  \<comment> \<open>the sub-checks in the order of the source; whatever one of them raises leaves as
      \<open>ValidationError\<close>\<close>
  "validate picks d =
     (let total_records = int (len d);
          (structure_valid, structure_errors) = validate_structure d;
          validation_errors = structure_errors;
          missing = analyze_missing_values d;
          type_issues = validate_data_types d
      in reraise_as (ValidationError ''quality_validation'')
           (on_ok (validate_business_rules d)
              (\<lambda>business_rule_errors.
                 let validation_errors = validation_errors @ business_rule_errors;
                     duplicates = detect_duplicates d;
                     valid = validate_records picks d;
                     invalid = total_records - valid
                 in Inr \<lparr>total_records = total_records, valid_records = valid,
                         invalid_records = invalid, missing_values_by_column = missing,
                         duplicate_records = duplicates, data_types_issues = type_issues,
                         validation_errors = validation_errors\<rparr>)))"

definition drop_missing_required :: "dataframe \<Rightarrow> dataframe" where
  \<comment> \<open>the loop over \<open>required_columns\<close> of \<open>clean_data\<close>\<close>
  "drop_missing_required d =
     fold (\<lambda>col cleaned_data.
             if col \<in> set (column_names cleaned_data) then dropna_subset col cleaned_data
             else cleaned_data)
       required_columns d"

definition clean_years :: "dataframe \<Rightarrow> error + dataframe" where
  "clean_years cleaned_data =
     (case get_col cleaned_data ''ano_titulacion'' of
        None \<Rightarrow> Inr cleaned_data
      | Some c \<Rightarrow>
          on_ok (compare_col (\<lambda>y. y \<ge> fst year_range \<and> y \<le> snd year_range) c)
            (\<lambda>msk. Inr (select_rows msk cleaned_data)))"

definition clean_quantities :: "dataframe \<Rightarrow> error + dataframe" where
  "clean_quantities cleaned_data =
     (case get_col cleaned_data ''cantidad_titulados'' of
        None \<Rightarrow> Inr cleaned_data
      | Some c \<Rightarrow>
          on_ok (compare_col (\<lambda>q. q \<ge> fst quantity_range \<and> q \<le> snd quantity_range) c)
            (\<lambda>msk. Inr (select_rows msk cleaned_data)))"

definition clean_data :: "dataframe \<Rightarrow> error + dataframe" where
  "clean_data d =
     reraise_as (ValidationError ''data_cleaning'')
       (on_ok (clean_years (drop_missing_required d))
          (\<lambda>cleaned_data. on_ok (clean_quantities cleaned_data)
             (\<lambda>cleaned_data. Inr (drop_duplicates cleaned_data))))"

section \<open>RegionalFilter\<close>

text \<open>
  The filter object holds the table \<open>_regional_variations\<close>; \<open>_filter_by_region\<close> appends
  the target to the list it finds there, so the table is state, passed in and returned.
\<close>

type_synonym variations = "(string \<times> string list) list"

definition los_rios_accented :: string where
  "los_rios_accented = ''los r'' @ [CHR 0xED] @ ''os''"

definition los_rios_spellings :: "string list" where
  "los_rios_spellings =
     [los_rios_accented, ''los rios'', ''de '' @ los_rios_accented, ''de los rios'',
      ''regi'' @ [CHR 0xF3] @ ''n de '' @ los_rios_accented]"

definition initial_variations :: variations where
  "initial_variations = [(''los rios'', los_rios_spellings), (los_rios_accented, los_rios_spellings)]"

definition re_match_contains :: "string \<Rightarrow> string \<Rightarrow> bool" where
  \<comment> \<open>\<open>re.match(r'.*kw.*', s)\<close>: the dot does not match a newline, so the keyword has to
      occur in the first line\<close>
  "re_match_contains kw s = contains (takeWhile (\<lambda>c. c \<noteq> CHR 0x0A) s) kw"

definition find_region_column :: "dataframe \<Rightarrow> string option" where
  "find_region_column d =
     find (\<lambda>col. list_ex (\<lambda>kw. re_match_contains kw (lower col))
                    [''region'', ''reg'', ''administrativa''])
       (column_names d)"

definition variations_for :: "variations \<Rightarrow> string \<Rightarrow> string list" where
  \<comment> \<open>the list \<open>variations\<close> after \<open>variations.append(target_region)\<close>\<close>
  "variations_for vars target_region =
     (case map_of vars (strip (lower target_region)) of
        None \<Rightarrow> [target_region]
      | Some l \<Rightarrow> l) @ [target_region]"

definition append_variation :: "variations \<Rightarrow> string \<Rightarrow> variations" where
  \<comment> \<open>the effect of that \<open>append\<close> on the table: the list of an existing key grows\<close>
  "append_variation vars target_region =
     map (\<lambda>(k, l). if k = strip (lower target_region) then (k, l @ [target_region]) else (k, l)) vars"

definition variation_match :: "string \<Rightarrow> cell \<Rightarrow> bool" where
  \<comment> \<open>\<open>.str.lower().str.strip().str.contains(variation.lower(), na=False, regex=False)\<close>
      on one cell; a cell that is not a string gives False\<close>
  "variation_match variation x =
     (case x of Str s \<Rightarrow> contains (strip (lower s)) (lower variation) | _ \<Rightarrow> False)"

definition initial_mask :: "dataframe \<Rightarrow> bool option list" where
  \<comment> \<open>\<open>pd.Series([False] * len(data))\<close>, read at the rows of \<open>data\<close>: the series is
      labelled 0 .. len - 1, so it has the entry False at a row whose label is among
      these, and no entry (\<open>None\<close>) at any other row. Row labels are taken to be distinct\<close>
  "initial_mask d =
     map (\<lambda>label. if 0 \<le> label \<and> label < int (len d) then Some False else None) (index d)"

definition or_variation :: "string \<Rightarrow> bool option list \<Rightarrow> cell list \<Rightarrow> bool option list" where
  \<comment> \<open>one round \<open>mask = mask | variation_mask\<close>. The operator aligns both sides on the
      row labels; where the left side has no entry the result is False, and from then on
      the mask has an entry there\<close>
  "or_variation variation msk xs =
     map (\<lambda>(m, x). case m of None \<Rightarrow> Some False | Some b \<Rightarrow> Some (b \<or> variation_match variation x))
       (zip msk xs)"

definition region_mask :: "dataframe \<Rightarrow> string list \<Rightarrow> cell list \<Rightarrow> bool list" where
  \<comment> \<open>the mask after the loop over the variations, as \<open>data[mask]\<close> reads it\<close>
  "region_mask d vs xs =
     map (\<lambda>m. m = Some True) (fold (\<lambda>variation msk. or_variation variation msk xs) vs (initial_mask d))"

definition filter_by_region :: "variations \<Rightarrow> dataframe \<Rightarrow> string \<Rightarrow> (error + dataframe) \<times> variations" where
  "filter_by_region vars d target_region =
     (case find_region_column d of
        None \<Rightarrow> (Inl (TransformationError ''region_column_detection''), vars)
      | Some region_column \<Rightarrow>
          (let vs = variations_for vars target_region;
               vars = append_variation vars target_region
           in (case get_col d region_column of
                 None \<Rightarrow> Inl AttributeError
               | Some c \<Rightarrow> on_ok (str_accessor c) (\<lambda>xs. Inr (select_rows (region_mask d vs xs) d)),
               vars)))"

definition validate_criteria :: "(string \<times> cell) list \<Rightarrow> bool" where
  \<comment> \<open>unknown keys only print a warning\<close>
  "validate_criteria criteria =
     (if criteria = [] then False
      else case map_of criteria ''region'' of
             None \<Rightarrow> True
           | Some v \<Rightarrow> (case v of Str s \<Rightarrow> strip s \<noteq> [] | _ \<Rightarrow> False))"

definition valid_keys :: "string list" where
  "valid_keys = [''region'', ''provincia'', ''comuna'', ''institucion'', ''carrera'']"

definition eq_cell :: "cell \<Rightarrow> cell \<Rightarrow> bool" where
  \<comment> \<open>one cell of \<open>series == value\<close>: a missing value equals nothing\<close>
  "eq_cell x v = (x \<noteq> NaN \<and> v \<noteq> NaN \<and> x = v)"

definition filter_equal :: "string \<Rightarrow> cell \<Rightarrow> dataframe \<Rightarrow> dataframe" where
  \<comment> \<open>one round of the loop over \<open>criteria.items()\<close>\<close>
  "filter_equal key v filtered_data =
     (if key \<noteq> ''region'' \<and> key \<in> set (column_names filtered_data)
      then (case get_col filtered_data key of
              None \<Rightarrow> filtered_data
            | Some c \<Rightarrow> select_rows (map (\<lambda>x. eq_cell x v) (cells c)) filtered_data)
      else filtered_data)"

definition reraise_transformation :: "string \<Rightarrow> error + 'a \<Rightarrow> error + 'a" where
  \<comment> \<open>\<open>except Exception as e: if isinstance(e, TransformationError): raise; raise
      TransformationError(..., transformation_step=step)\<close>\<close>
  "reraise_transformation step r =
     (case r of
        Inl e \<Rightarrow> (case e of TransformationError s \<Rightarrow> Inl e | _ \<Rightarrow> Inl (TransformationError step))
      | Inr x \<Rightarrow> Inr x)"

definition filter_rf :: "variations \<Rightarrow> dataframe \<Rightarrow> (string \<times> cell) list \<Rightarrow> (error + dataframe) \<times> variations" where
  \<comment> \<open>\<open>RegionalFilter.filter\<close>; the criteria are the items of the dict, in order\<close>
  "filter_rf vars d criteria =
     (if \<not> validate_criteria criteria
      then (Inl (TransformationError ''criteria_validation''), vars)
      else
        let filtered_data = d;
            (r, vars) = (case map_of criteria ''region'' of
                           None \<Rightarrow> (Inr filtered_data, vars)
                         | Some v \<Rightarrow> (case v of
                                        Str target_region \<Rightarrow> filter_by_region vars filtered_data target_region
                                      | _ \<Rightarrow> (Inl AttributeError, vars)))
        in (reraise_transformation ''filter_application''
              (on_ok r (\<lambda>filtered_data. Inr (fold (\<lambda>(key, v). filter_equal key v) criteria filtered_data))),
            vars))"

section \<open>DataCleaner\<close>

text \<open>
  Three library functions are taken as they are, as parameters: what \<open>astype(str)\<close>
  prints for a number of a column of a given dtype, \<open>str.title\<close>, and what
  \<open>pd.to_numeric\<close> reads from a string (\<open>None\<close> when it cannot be read as a number).
\<close>

record pylib =
  str_of_number :: "dtype \<Rightarrow> rat \<Rightarrow> string"
  title :: "string \<Rightarrow> string"
  parse_number :: "string \<Rightarrow> rat option"

definition text_keywords :: "string list" where
  "text_keywords = [''nombre'', ''titulo'', ''carrera'', ''institucion'', ''region'',
                    ''provincia'', ''comuna'', ''area'', ''modalidad'', ''sede'']"

definition numeric_keywords :: "string list" where
  "numeric_keywords = [''codigo'', ''cantidad'', ''ano'', ''mes'', ''edad'']"

definition re_search_any :: "string list \<Rightarrow> string \<Rightarrow> bool" where
  \<comment> \<open>\<open>re.search(r'.*(?:k1|k2|...).*', s)\<close>: some keyword occurs in \<open>s\<close>\<close>
  "re_search_any kws s = list_ex (\<lambda>kw. contains s kw) kws"

definition text_column :: "column \<Rightarrow> bool" where
  \<comment> \<open>the test of the loop of \<open>_identify_text_columns\<close>\<close>
  "text_column c = (re_search_any text_keywords (lower (cname c)) \<or> dtype c = ObjectDT)"

definition numeric_column :: "column \<Rightarrow> bool" where
  \<comment> \<open>the test of the loop of \<open>_identify_numeric_columns\<close>\<close>
  "numeric_column c = (re_search_any numeric_keywords (lower (cname c)) \<or> is_numeric_dtype (dtype c))"

definition identify_text_columns :: "dataframe \<Rightarrow> string list" where
  "identify_text_columns d = map cname (filter text_column (columns d))"

definition identify_numeric_columns :: "dataframe \<Rightarrow> string list" where
  "identify_numeric_columns d = map cname (filter numeric_column (columns d))"

definition update_column :: "string \<Rightarrow> (column \<Rightarrow> column) \<Rightarrow> dataframe \<Rightarrow> dataframe" where
  \<comment> \<open>\<open>data[col] = f(data[col])\<close>\<close>
  "update_column col f d = d\<lparr>columns := map (\<lambda>c. if cname c = col then f c else c) (columns d)\<rparr>"

definition drop_column :: "string \<Rightarrow> dataframe \<Rightarrow> dataframe" where
  \<comment> \<open>\<open>data.drop(columns=[col], inplace=True)\<close>\<close>
  "drop_column col d = d\<lparr>columns := filter (\<lambda>c. cname c \<noteq> col) (columns d)\<rparr>"

definition validate_input :: "dataframe option \<Rightarrow> bool" where
  "validate_input data =
     (case data of
        None \<Rightarrow> False
      | Some d \<Rightarrow>
          if empty d then False
          else if length (columns d) = 0 then False
          else if len d = 0 then False
          else True)"

definition standardize_column_names :: "dataframe \<Rightarrow> error + dataframe" where
  "standardize_column_names d =
     reraise_as (TransformationError ''column_standardization'')
       (Inr (d\<lparr>columns := map (\<lambda>c. c\<lparr>cname := standardize_name (cname c)\<rparr>) (columns d)\<rparr>))"

definition astype_str :: "pylib \<Rightarrow> column \<Rightarrow> column" where
  \<comment> \<open>\<open>series.astype(str)\<close>: a missing value becomes the string \<open>nan\<close>\<close>
  "astype_str lib c =
     c\<lparr>dtype := ObjectDT,
       cells := map (\<lambda>x. case x of
                            Str s \<Rightarrow> Str s
                          | Num r \<Rightarrow> Str (str_of_number lib (dtype c) r)
                          | NaN \<Rightarrow> Str ''nan'') (cells c)\<rparr>"

definition replace_nan :: "string list \<Rightarrow> column \<Rightarrow> column" where
  \<comment> \<open>\<open>series.replace([...], np.nan)\<close>\<close>
  "replace_nan vals c =
     c\<lparr>cells := map (\<lambda>x. case x of Str s \<Rightarrow> (if s \<in> set vals then NaN else x) | _ \<Rightarrow> x) (cells c)\<rparr>"

definition clean_text_column :: "pylib \<Rightarrow> column \<Rightarrow> column" where
  \<comment> \<open>the body of the loop of \<open>_clean_text_columns\<close>\<close>
  "clean_text_column lib c =
     (let c = astype_str lib c;
          c = replace_nan [''nan'', ''None'', ''null'', ''NULL'', ''NaN''] c;
          proper = list_ex (\<lambda>keyword. contains (lower (cname c)) keyword) [''nombre'', ''titulo'', ''carrera'']
      in c\<lparr>cells := map (\<lambda>x. case x of
                                 Str s \<Rightarrow>
                                   (let s = strip s;
                                        s = sub_runs is_space (CHR '' '') False s
                                    in Str (if proper then title lib s else s))
                               | _ \<Rightarrow> x) (cells c)\<rparr>)"

definition clean_text_columns :: "pylib \<Rightarrow> dataframe \<Rightarrow> error + dataframe" where
  "clean_text_columns lib d =
     reraise_as (TransformationError ''text_cleaning'')
       (Inr (fold (\<lambda>col cleaned_data. update_column col (clean_text_column lib) cleaned_data)
               (identify_text_columns d) d))"

definition numbers :: "cell list \<Rightarrow> rat list" where
  "numbers xs = concat (map (\<lambda>x. case x of Num r \<Rightarrow> [r] | _ \<Rightarrow> []) xs)"

definition median :: "rat list \<Rightarrow> rat" where
  \<comment> \<open>of a list that is not empty\<close>
  "median xs =
     (let s = sort xs; n = length s
      in if odd n then s ! (n div 2) else (s ! (n div 2 - 1) + s ! (n div 2)) / 2)"

definition median_col :: "column \<Rightarrow> error + cell" where
  \<comment> \<open>\<open>series.median()\<close>: missing values are skipped; strings make it raise \<open>TypeError\<close>;
      with no value at all the result is missing\<close>
  "median_col c =
     (if list_ex is_str (cells c) then Inl TypeError
      else if numbers (cells c) = [] then Inr NaN
      else Inr (Num (median (numbers (cells c)))))"

fun str_less :: "string \<Rightarrow> string \<Rightarrow> bool" where
  \<comment> \<open>Python's \<open><\<close> on strings: by code point\<close>
  "str_less [] [] = False"
| "str_less [] (y # ys) = True"
| "str_less (x # xs) [] = False"
| "str_less (x # xs) (y # ys) = ((of_char x :: nat) < of_char y \<or> (x = y \<and> str_less xs ys))"

definition cell_less :: "cell \<Rightarrow> cell \<Rightarrow> bool" where
  "cell_less a b =
     (case (a, b) of
        (Num x, Num y) \<Rightarrow> x < y
      | (Str x, Str y) \<Rightarrow> str_less x y
      | _ \<Rightarrow> False)"

definition first_seen :: "'a list \<Rightarrow> 'a list" where
  \<comment> \<open>the distinct values in the order of their first occurrence\<close>
  "first_seen xs = rev (remdups (rev xs))"

definition modes :: "cell list \<Rightarrow> cell list" where
  \<comment> \<open>the most frequent non-missing values, in the order of their first occurrence\<close>
  "modes xs =
     (let vals = filter (\<lambda>x. \<not> isna x) xs;
          keys = first_seen vals;
          top = fold max (map (count_list vals) keys) 0
      in filter (\<lambda>k. count_list vals k = top) keys)"

definition mode :: "cell list \<Rightarrow> cell list" where
  \<comment> \<open>\<open>series.mode()\<close>: the modes, sorted when they can be compared (all strings or all
      numbers), left in the order of first occurrence otherwise; only the first entry is
      used, so the sorted list is given as least entry first, rest after it\<close>
  "mode xs =
     (let ms = modes xs
      in if list_all is_str ms \<or> list_all (\<lambda>x. \<not> is_str x) ms
         then (case ms of
                 [] \<Rightarrow> []
               | m # rest \<Rightarrow>
                   (let least = fold (\<lambda>x y. if cell_less x y then x else y) rest m
                    in least # remove1 least ms))
         else ms)"

definition fillna :: "cell \<Rightarrow> column \<Rightarrow> column" where
  \<comment> \<open>\<open>series.fillna(value, inplace=True)\<close>\<close>
  "fillna v c = c\<lparr>cells := map (\<lambda>x. if isna x then v else x) (cells c)\<rparr>"

definition missing_count :: "column \<Rightarrow> nat" where
  "missing_count c = length (filter isna (cells c))"

definition handle_missing_column :: "(string \<times> nat) list \<Rightarrow> string \<Rightarrow> dataframe \<Rightarrow> error + dataframe" where
  \<comment> \<open>one round of the loop of \<open>_handle_missing_values\<close>; \<open>missing_stats\<close> was computed
      before the loop\<close>
  "handle_missing_column missing_stats col handled_data =
     (case (map_of missing_stats col, get_col handled_data col) of
        (Some count, Some c) \<Rightarrow>
          if count > 0 then
            (let missing_percentage = ((of_nat count :: rat) / of_nat (len handled_data)) * 100
             in if missing_percentage > 90 then Inr (drop_column col handled_data)
                else if col \<in> set (identify_numeric_columns handled_data) then
                  (if contains (lower col) ''cantidad''
                   then Inr (update_column col (fillna (Num 0)) handled_data)
                   else on_ok (median_col c)
                          (\<lambda>m. Inr (update_column col (fillna m) handled_data)))
                else
                  (if dtype c = ObjectDT then
                     (let mode_value = mode (cells c);
                          fill_value = (if length mode_value > 0 then hd mode_value else Str ''Unknown'')
                      in Inr (update_column col (fillna fill_value) handled_data))
                   else Inr handled_data))
          else Inr handled_data
      | _ \<Rightarrow> Inr handled_data)"

definition handle_missing_values :: "dataframe \<Rightarrow> error + dataframe" where
  "handle_missing_values d =
     reraise_as (TransformationError ''missing_values'')
       (let handled_data = d;
            missing_stats = map (\<lambda>c. (cname c, missing_count c)) (columns handled_data);
            total_missing = sum_list (map snd missing_stats)
        in if total_missing > 0
           then fold (\<lambda>col r. on_ok r (handle_missing_column missing_stats col))
                  (column_names handled_data) (Inr handled_data)
           else Inr handled_data)"

definition integral :: "cell \<Rightarrow> bool" where
  "integral x = (case x of Num r \<Rightarrow> of_int \<lfloor>r\<rfloor> = r | _ \<Rightarrow> False)"

definition to_numeric :: "pylib \<Rightarrow> column \<Rightarrow> column" where
  \<comment> \<open>\<open>pd.to_numeric(series, errors='coerce')\<close>\<close>
  "to_numeric lib c =
     (let xs = map (\<lambda>x. case x of
                          Str s \<Rightarrow> (case parse_number lib s of Some r \<Rightarrow> Num r | None \<Rightarrow> NaN)
                        | _ \<Rightarrow> x) (cells c)
      in c\<lparr>dtype := (if is_numeric_dtype (dtype c) then dtype c
                      else if list_all integral xs then IntDT else FloatDT),
           cells := xs\<rparr>)"

definition standardize_numeric_column :: "pylib \<Rightarrow> column \<Rightarrow> column" where
  \<comment> \<open>the body of the first loop of \<open>_standardize_data_types\<close>; \<open>astype('Int64')\<close> raises
      on a value that is not whole, the inner handler prints a warning, and the column
      stays as \<open>to_numeric\<close> left it\<close>
  "standardize_numeric_column lib c =
     (let c = to_numeric lib c
      in if list_ex (\<lambda>keyword. contains (lower (cname c)) keyword) [''ano'', ''mes'', ''cantidad'', ''codigo'']
         then (let filled = fillna (Num 0) c
               in if list_all integral (cells filled) then filled\<lparr>dtype := IntDT\<rparr> else c)
         else c)"

definition standardize_text_column :: "pylib \<Rightarrow> column \<Rightarrow> column" where
  "standardize_text_column lib c = replace_nan [''nan''] (astype_str lib c)"

definition standardize_data_types :: "pylib \<Rightarrow> dataframe \<Rightarrow> error + dataframe" where
  "standardize_data_types lib d =
     reraise_as (TransformationError ''data_type_standardization'')
       (let standardized_data = d;
            numeric_columns = identify_numeric_columns standardized_data;
            standardized_data =
              fold (\<lambda>col sd. update_column col (standardize_numeric_column lib) sd)
                numeric_columns standardized_data;
            text_columns = identify_text_columns standardized_data;
            standardized_data =
              fold (\<lambda>col sd. update_column col (standardize_text_column lib) sd)
                text_columns standardized_data
        in Inr standardized_data)"

definition remove_duplicates :: "dataframe \<Rightarrow> error + dataframe" where
  "remove_duplicates d =
     reraise_as (TransformationError ''duplicate_removal'') (Inr (drop_duplicates d))"

definition quantile :: "rat \<Rightarrow> rat list \<Rightarrow> rat" where
  \<comment> \<open>linear interpolation between the two values next to position \<open>q * (n - 1)\<close> of
      the sorted list, which is not empty\<close>
  "quantile q xs =
     (let s = sort xs;
          pos = q * of_nat (length s - 1);
          lo = nat \<lfloor>pos\<rfloor>;
          frac = pos - of_nat lo
      in if lo + 1 < length s then s ! lo + (s ! (lo + 1) - s ! lo) * frac else s ! lo)"

definition quantile_col :: "rat \<Rightarrow> column \<Rightarrow> error + cell" where
  \<comment> \<open>\<open>series.quantile(q)\<close>: missing values are skipped; strings make it raise
      \<open>TypeError\<close>; with no value at all the result is missing\<close>
  "quantile_col q c =
     (if list_ex is_str (cells c) then Inl TypeError
      else if numbers (cells c) = [] then Inr NaN
      else Inr (Num (quantile q (numbers (cells c)))))"

definition where_less :: "rat \<Rightarrow> cell \<Rightarrow> cell" where
  \<comment> \<open>one cell of \<open>np.where(series < lower_bound, lower_bound, series)\<close>\<close>
  "where_less lower_bound x = (case x of Num v \<Rightarrow> (if v < lower_bound then Num lower_bound else x) | _ \<Rightarrow> x)"

definition where_greater :: "rat \<Rightarrow> cell \<Rightarrow> cell" where
  \<comment> \<open>one cell of \<open>np.where(series > upper_bound, upper_bound, series)\<close>\<close>
  "where_greater upper_bound x = (case x of Num v \<Rightarrow> (if v > upper_bound then Num upper_bound else x) | _ \<Rightarrow> x)"

definition cap_column :: "rat \<Rightarrow> rat \<Rightarrow> column \<Rightarrow> column" where
  \<comment> \<open>the two assignments of \<open>np.where\<close>; the result of \<open>np.where\<close> with a float bound
      is a float array, unless the column held objects\<close>
  "cap_column lower_bound upper_bound c =
     c\<lparr>dtype := (if dtype c = ObjectDT then ObjectDT else FloatDT),
       cells := map (where_greater upper_bound) (map (where_less lower_bound) (cells c))\<rparr>"

definition handle_outliers_column :: "string \<Rightarrow> dataframe \<Rightarrow> error + dataframe" where
  \<comment> \<open>one round of the loop of \<open>_handle_outliers\<close>. Where the quantiles did not raise, no
      cell of the column is a string, so the comparisons with the bounds do not raise;
      a comparison with a missing bound is False\<close>
  "handle_outliers_column col handled_data =
     (case get_col handled_data col of
        None \<Rightarrow> Inr handled_data
      | Some c \<Rightarrow>
          if col \<in> set [''codigo'', ''ano''] then Inr handled_data
          else
            on_ok (quantile_col (1 / 4) c) (\<lambda>Q1.
            on_ok (quantile_col (3 / 4) c) (\<lambda>Q3.
              case (Q1, Q3) of
                (Num q1, Num q3) \<Rightarrow>
                  (let IQR = q3 - q1;
                       lower_bound = q1 - (3 / 2) * IQR;
                       upper_bound = q3 + (3 / 2) * IQR;
                       outliers = filter (\<lambda>x. case x of
                                                  Num v \<Rightarrow> v < lower_bound \<or> v > upper_bound
                                                | _ \<Rightarrow> False) (cells c)
                   in if length outliers > 0
                      then Inr (update_column col (cap_column lower_bound upper_bound) handled_data)
                      else Inr handled_data)
              | _ \<Rightarrow> Inr handled_data)))"

definition handle_outliers :: "dataframe \<Rightarrow> error + dataframe" where
  "handle_outliers d =
     reraise_as (TransformationError ''outlier_handling'')
       (let handled_data = d;
            numeric_columns = identify_numeric_columns handled_data
        in fold (\<lambda>col r. on_ok r (handle_outliers_column col)) numeric_columns (Inr handled_data))"

definition transform :: "pylib \<Rightarrow> dataframe option \<Rightarrow> error + dataframe" where
  \<comment> \<open>\<open>DataCleaner.transform\<close>; every step raises \<open>TransformationError\<close> only, which the
      outer handler lets through\<close>
  "transform lib data =
     reraise_transformation ''data_cleaning''
       (if \<not> validate_input data then Inl (TransformationError ''input_validation'')
        else case data of
               None \<Rightarrow> Inl (TransformationError ''input_validation'')
             | Some d \<Rightarrow>
                 on_ok (standardize_column_names d) (\<lambda>cleaned_data.
                 on_ok (clean_text_columns lib cleaned_data) (\<lambda>cleaned_data.
                 on_ok (handle_missing_values cleaned_data) (\<lambda>cleaned_data.
                 on_ok (standardize_data_types lib cleaned_data) (\<lambda>cleaned_data.
                 on_ok (remove_duplicates cleaned_data) (\<lambda>cleaned_data.
                 handle_outliers cleaned_data))))))"

section \<open>Auxiliary notions of the statements\<close>

text \<open>No two neighbouring characters of the class.\<close>

fun adj_free :: "(char \<Rightarrow> bool) \<Rightarrow> string \<Rightarrow> bool" where
  "adj_free P [] = True"
| "adj_free P [c] = True"
| "adj_free P (a # b # cs) = (\<not> (P a \<and> P b) \<and> adj_free P (b # cs))"

definition has_region_value :: "(string \<times> cell) list \<Rightarrow> bool" where
  "has_region_value record_dict = list_ex (\<lambda>(key, v). key = ''region'' \<and> \<not> isna v) record_dict"

definition frame_region_missing :: dataframe where
  "frame_region_missing = \<lparr>index = [0], columns = [\<lparr>cname = ''region'', dtype = ObjectDT, cells = [NaN]\<rparr>]\<rparr>"

definition missing_in :: "string \<Rightarrow> (string \<times> cell) list \<Rightarrow> bool" where
  "missing_in col r = (map_of r col = Some NaN)"

definition year_outside :: "(string \<times> cell) list \<Rightarrow> bool" where
  \<comment> \<open>the row has a graduation year, and it is outside [1990, 2030]\<close>
  "year_outside r =
     (case map_of r ''ano_titulacion'' of
        None \<Rightarrow> False
      | Some x \<Rightarrow> (case x of Num y \<Rightarrow> y < 1990 \<or> y > 2030 | _ \<Rightarrow> False))"

definition quantity_outside :: "(string \<times> cell) list \<Rightarrow> bool" where
  \<comment> \<open>the row has a graduate count, and it is outside [0, 10000]\<close>
  "quantity_outside r =
     (case map_of r ''cantidad_titulados'' of
        None \<Rightarrow> False
      | Some x \<Rightarrow> (case x of Num q \<Rightarrow> q < 0 \<or> q > 10000 | _ \<Rightarrow> False))"

definition drop_rows :: "((string \<times> cell) list \<Rightarrow> bool) \<Rightarrow> dataframe \<Rightarrow> dataframe" where
  "drop_rows P d = select_rows (map (\<lambda>r. \<not> P r) (iterrows d)) d"

definition spec_clean_data :: "dataframe \<Rightarrow> dataframe" where
  \<comment> \<open>the four drops in the words of the specification, in its order\<close>
  "spec_clean_data d =
     drop_duplicates
       (drop_rows quantity_outside
          (drop_rows year_outside
             (drop_rows (missing_in ''ano_titulacion'')
                (drop_rows (missing_in ''region'') d))))"

definition no_missing :: "string \<Rightarrow> dataframe \<Rightarrow> bool" where
  "no_missing col d = (case get_col d col of None \<Rightarrow> True | Some c \<Rightarrow> \<not> list_ex isna (cells c))"

definition numbers_only :: "string \<Rightarrow> dataframe \<Rightarrow> bool" where
  "numbers_only col d = (case get_col d col of None \<Rightarrow> True | Some c \<Rightarrow> \<not> list_ex is_str (cells c))"

definition frame_years :: dataframe where
  "frame_years = \<lparr>index = [0, 1, 2],
     columns = [\<lparr>cname = ''ano_titulacion'', dtype = IntDT, cells = [Num 1985, Num 2023, Num 2050]\<rparr>]\<rparr>"


definition frame_two_regions :: dataframe where
  "frame_two_regions =
     \<lparr>index = [0, 1],
      columns = [\<lparr>cname = ''region'', dtype = ObjectDT, cells = [Str ''Los Rios'', Str ''Maule'']\<rparr>]\<rparr>"

definition frame_mixed :: dataframe where
  "frame_mixed =
     \<lparr>index = [0, 1, 2, 3, 4],
      columns =
        [\<lparr>cname = ''region'', dtype = ObjectDT,
          cells = [Str ''Los Rios'', NaN, Str ''Los Rios'', Str ''Los Rios'', Str ''Los Rios'']\<rparr>,
         \<lparr>cname = ''ano_titulacion'', dtype = FloatDT,
          cells = [Num 2020, Num 2020, Num 1985, Num 2020, Num 2020]\<rparr>,
         \<lparr>cname = ''cantidad_titulados'', dtype = FloatDT,
          cells = [Num 5, Num 5, Num 5, Num 20000, Num 5]\<rparr>]\<rparr>"

definition frame_text_year :: dataframe where
  "frame_text_year =
     \<lparr>index = [0, 1],
      columns = [\<lparr>cname = ''ano_titulacion'', dtype = ObjectDT, cells = [Str ''2020'', Num 2021]\<rparr>]\<rparr>"

definition frame_missing_quantity :: dataframe where
  "frame_missing_quantity =
     \<lparr>index = [0, 1],
      columns =
        [\<lparr>cname = ''ano_titulacion'', dtype = IntDT, cells = [Num 2020, Num 2021]\<rparr>,
         \<lparr>cname = ''cantidad_titulados'', dtype = FloatDT, cells = [Num 10, NaN]\<rparr>]\<rparr>"

definition frame_regions :: dataframe where
  "frame_regions =
     \<lparr>index = [0, 1, 2, 3, 7],
      columns =
        [\<lparr>cname = ''region'', dtype = ObjectDT,
          cells = [Str (''Los R'' @ [CHR 0xED] @ ''os''), Str ''Los Rios'', Str ''Metropolitana'',
                   Str (''Regi'' @ [CHR 0xF3] @ ''n de Los R'' @ [CHR 0xED] @ ''os, Chile''),
                   Str ''Los Rios'']\<rparr>,
         \<lparr>cname = ''cantidad_titulados'', dtype = IntDT,
          cells = [Num 45, Num 32, Num 67, Num 28, Num 51]\<rparr>]\<rparr>"

definition region_target :: string where
  "region_target = ''Los R'' @ [CHR 0xED] @ ''os''"

text \<open>A loop that treats the columns of some names one by one, each on its own.\<close>

definition apply_col :: "(column \<Rightarrow> error + column option) \<Rightarrow> string \<Rightarrow> dataframe \<Rightarrow> error + dataframe" where
  "apply_col treat n cur =
     (case get_col cur n of
        None \<Rightarrow> Inr cur
      | Some c \<Rightarrow>
          (case treat c of
             Inl e \<Rightarrow> Inl e
           | Inr None \<Rightarrow> Inr (drop_column n cur)
           | Inr (Some c') \<Rightarrow> Inr (update_column n (\<lambda>_. c') cur)))"

definition treated :: "(column \<Rightarrow> error + column option) \<Rightarrow> string list \<Rightarrow> column \<Rightarrow> column option" where
  "treated treat ns c =
     (if cname c \<in> set ns then (case treat c of Inl e \<Rightarrow> None | Inr oc \<Rightarrow> oc) else Some c)"

definition is_mode :: "cell \<Rightarrow> cell list \<Rightarrow> bool" where
  "is_mode v xs = (v \<in> set xs \<and> \<not> isna v \<and> list_all (\<lambda>w. isna w \<or> count_list xs w \<le> count_list xs v) xs)"

definition treat_missing :: "(string \<times> nat) list \<Rightarrow> nat \<Rightarrow> column \<Rightarrow> error + column option" where
  "treat_missing missing_stats n c =
     (case map_of missing_stats (cname c) of
        None \<Rightarrow> Inr (Some c)
      | Some count \<Rightarrow>
          if count > 0 then
            (if ((of_nat count :: rat) / of_nat n) * 100 > 90 then Inr None
             else if numeric_column c then
               (if contains (lower (cname c)) ''cantidad'' then Inr (Some (fillna (Num 0) c))
                else (case median_col c of Inl e \<Rightarrow> Inl e | Inr m \<Rightarrow> Inr (Some (fillna m c))))
             else if dtype c = ObjectDT then
               Inr (Some (fillna (if length (mode (cells c)) > 0 then hd (mode (cells c)) else Str ''Unknown'') c))
             else Inr (Some c))
          else Inr (Some c))"

definition frame_gaps :: dataframe where
  "frame_gaps =
     \<lparr>index = [0, 1, 2, 3],
      columns =
        [\<lparr>cname = ''sede'', dtype = ObjectDT, cells = [Str ''Valdivia'', NaN, Str ''Valdivia'', Str ''La Union'']\<rparr>,
         \<lparr>cname = ''cantidad_x'', dtype = FloatDT, cells = [Num 5, NaN, Num 7, Num 100]\<rparr>,
         \<lparr>cname = ''edad_promedio'', dtype = FloatDT, cells = [Num 20, NaN, Num 30, Num 31]\<rparr>,
         \<lparr>cname = ''jornada'', dtype = ObjectDT, cells = [NaN, NaN, NaN, NaN]\<rparr>,
         \<lparr>cname = ''genero'', dtype = ObjectDT, cells = [Str ''F'', Str ''M'', Str ''M'', Str ''F'']\<rparr>]\<rparr>"

definition frame_codes :: dataframe where
  "frame_codes =
     \<lparr>index = [0, 1, 2, 3, 4],
      columns =
        [\<lparr>cname = ''codigo_institucion'', dtype = ObjectDT,
          cells = [Str ''1'', Str ''2'', Str ''3'', Str ''4'', Str ''5'']\<rparr>,
         \<lparr>cname = ''cantidad_titulados'', dtype = IntDT,
          cells = [Num 45, Num 32, Num 67, Num 28, Num 51]\<rparr>]\<rparr>"

definition frame_quantities :: dataframe where
  "frame_quantities =
     \<lparr>index = [0, 1, 2, 3, 4],
      columns =
        [\<lparr>cname = ''cantidad_titulados'', dtype = IntDT,
          cells = [Num 45, Num 32, Num 67, Num 28, Num 5100]\<rparr>,
         \<lparr>cname = ''ano'', dtype = IntDT,
          cells = [Num 2023, Num 2023, Num 2022, Num 2023, Num 1800]\<rparr>]\<rparr>"

definition frame_codes_missing :: dataframe where
  "frame_codes_missing =
     \<lparr>index = [0, 1, 2, 3],
      columns =
        [\<lparr>cname = ''codigo_institucion'', dtype = ObjectDT,
          cells = [Str ''A01'', NaN, Str ''A03'', Str ''A01'']\<rparr>,
         \<lparr>cname = ''cantidad_titulados'', dtype = FloatDT,
          cells = [Num 45, NaN, Num 67, Num 28]\<rparr>]\<rparr>"

definition frame_institucion_missing :: dataframe where
  "frame_institucion_missing =
     \<lparr>index = [0, 1, 2, 3],
      columns =
        [\<lparr>cname = ''institucion'', dtype = ObjectDT,
          cells = [Str ''A01'', NaN, Str ''A03'', Str ''A01'']\<rparr>,
         \<lparr>cname = ''cantidad_titulados'', dtype = FloatDT,
          cells = [Num 45, NaN, Num 67, Num 28]\<rparr>]\<rparr>"

definition frame_codes_numbers :: dataframe where
  "frame_codes_numbers =
     \<lparr>index = [0, 1, 2, 3, 4],
      columns =
        [\<lparr>cname = ''codigo_institucion'', dtype = FloatDT,
          cells = [Num 1, NaN, Num 5, Num 9, Num 1]\<rparr>]\<rparr>"

definition frame_codes_outlier :: dataframe where
  "frame_codes_outlier =
     \<lparr>index = [0, 1, 2, 3, 4],
      columns =
        [\<lparr>cname = ''codigo_institucion'', dtype = IntDT,
          cells = [Num 1, Num 2, Num 3, Num 4, Num 500]\<rparr>]\<rparr>"

definition lib_plain :: pylib where
  "lib_plain = \<lparr>str_of_number = (\<lambda>t r. ''0''), title = (\<lambda>s. s), parse_number = (\<lambda>s. None)\<rparr>"

definition step_names :: "string list" where
  "step_names = [''input_validation'', ''column_standardization'', ''text_cleaning'', ''missing_values'',
                 ''data_type_standardization'', ''duplicate_removal'', ''outlier_handling'']"

text \<open>The six steps of \<open>transform\<close>, one after the other.\<close>

definition run_steps :: "pylib \<Rightarrow> dataframe \<Rightarrow> error + dataframe" where
  "run_steps lib d =
     on_ok (standardize_column_names d) (\<lambda>cleaned_data.
     on_ok (clean_text_columns lib cleaned_data) (\<lambda>cleaned_data.
     on_ok (handle_missing_values cleaned_data) (\<lambda>cleaned_data.
     on_ok (standardize_data_types lib cleaned_data) (\<lambda>cleaned_data.
     on_ok (remove_duplicates cleaned_data) (\<lambda>cleaned_data.
     handle_outliers cleaned_data)))))"

section \<open>Column-name standardization\<close>

lemma lower_char_idem: "lower_char (lower_char c) = lower_char c"
  by (auto simp: lower_char_def Let_def)

lemma lower_char_underscore: "lower_char (CHR ''_'') = CHR ''_''"
  by (simp add: lower_char_def)

lemma is_word_underscore: "is_word (CHR ''_'')"
  by (simp add: is_word_def)

lemma is_word_not_space: "is_word c \<Longrightarrow> \<not> is_space c"
  by (auto simp: is_word_def is_space_def Let_def)

lemma is_word_lower_char: "is_word c \<Longrightarrow> is_word (lower_char c)"
  by (auto simp: is_word_def lower_char_def Let_def)

lemma set_sub_runs: "set (sub_runs P r b s) \<subseteq> insert r {c \<in> set s. \<not> P c}"
  by (induction P r b s rule: sub_runs.induct) auto

lemma sub_runs_none: "\<forall>c\<in>set s. \<not> P c \<Longrightarrow> sub_runs P r b s = s"
  by (induction s arbitrary: b) auto

lemma adj_free_sub_runs:
  "P r \<Longrightarrow> adj_free P (sub_runs P r b s) \<and> (b \<longrightarrow> sub_runs P r b s = [] \<or> \<not> P (hd (sub_runs P r b s)))"
  apply (induction P r b s rule: sub_runs.induct)
   apply simp
  subgoal for P r in_run c cs
    apply (cases "sub_runs P r True cs"; cases "sub_runs P r False cs")
    apply (auto)
    done
  done

lemma sub_runs_fix:
  "\<forall>c. P c \<longrightarrow> c = r \<Longrightarrow> adj_free P s \<Longrightarrow> (b \<longrightarrow> s = [] \<or> \<not> P (hd s)) \<Longrightarrow> sub_runs P r b s = s"
proof (induction s arbitrary: b)
  case Nil
  then show ?case by simp
next
  case (Cons a s)
  show ?case
  proof (cases s)
    case Nil
    with Cons.prems show ?thesis by auto
  next
    case (Cons x xs)
    with Cons.prems Cons.IH[of "P a"] show ?thesis by auto
  qed
qed

lemma adj_free_append:
  "adj_free P (xs @ ys) \<longleftrightarrow> adj_free P xs \<and> adj_free P ys \<and> (xs \<noteq> [] \<and> ys \<noteq> [] \<longrightarrow> \<not> (P (last xs) \<and> P (hd ys)))"
  apply (induction P xs rule: adj_free.induct)
    apply simp
   apply (cases ys; simp)
  apply auto
  done

lemma adj_free_rev: "adj_free P (rev s) = adj_free P s"
  apply (induction P s rule: adj_free.induct)
    apply simp
   apply simp
  apply (simp add: adj_free_append)
  apply (auto simp: last_rev hd_rev hd_append)
  done

lemma adj_free_dropWhile: "adj_free P s \<Longrightarrow> adj_free P (dropWhile Q s)"
  by (induction P s rule: adj_free.induct) auto

lemma adj_free_strip: "adj_free P s \<Longrightarrow> adj_free P (strip_chars Q s)"
  by (simp add: strip_chars_def adj_free_rev adj_free_dropWhile)

lemma dropWhile_fix: "s = [] \<or> \<not> P (hd s) \<Longrightarrow> dropWhile P s = s"
  by (cases s) auto

lemma strip_chars_ends:
  "strip_chars P s = [] \<or> (\<not> P (hd (strip_chars P s)) \<and> \<not> P (last (strip_chars P s)))"
proof -
  let ?u = "dropWhile P s"
  let ?w = "dropWhile P (rev ?u)"
  show ?thesis
  proof (cases "?w = []")
    case True
    then show ?thesis by (simp add: strip_chars_def)
  next
    case False
    then have hw: "\<not> P (hd ?w)" by (rule hd_dropWhile)
    have "?u \<noteq> []"
    proof
      assume "?u = []"
      then have "?w = []" by (metis dropWhile.simps(1) rev.simps(1))
      with False show False by simp
    qed
    then have hu: "\<not> P (hd ?u)" by (rule hd_dropWhile)
    have "?u = rev ?w @ rev (takeWhile P (rev ?u))"
      by (metis rev_append rev_rev_ident takeWhile_dropWhile_id)
    then have "hd ?u = hd (rev ?w)" using False
      by (metis hd_append2 rev_is_Nil_conv)
    with hu hw False show ?thesis
      by (simp add: strip_chars_def last_rev hd_rev)
  qed
qed

lemma strip_chars_fix:
  assumes "s = [] \<or> (\<not> P (hd s) \<and> \<not> P (last s))"
  shows "strip_chars P s = s"
proof -
  have 1: "dropWhile P s = s" using assms by (intro dropWhile_fix) auto
  have 2: "dropWhile P (rev s) = rev s" using assms by (intro dropWhile_fix) (auto simp: hd_rev)
  show ?thesis by (simp add: strip_chars_def 1 2)
qed

lemma set_strip_chars: "set (strip_chars P s) \<subseteq> set s"
  unfolding strip_chars_def
  by (metis set_dropWhileD set_rev subsetI)

lemma standardize_name_chars:
  "c \<in> set (standardize_name s) \<Longrightarrow> is_word c \<and> lower_char c = c"
proof -
  assume a: "c \<in> set (standardize_name s)"
  let ?s1 = "sub_each (\<lambda>c. \<not> is_word c \<and> \<not> is_space c) (lower s)"
  let ?s2 = "sub_runs is_space (CHR ''_'') False ?s1"
  let ?s3 = "sub_runs (\<lambda>c. c = CHR ''_'') (CHR ''_'') False ?s2"
  have 1: "\<forall>c\<in>set ?s1. (is_word c \<or> is_space c) \<and> lower_char c = c"
    by (auto simp: sub_each_def lower_def lower_char_idem lower_char_underscore is_word_underscore)
  have 2: "\<forall>c\<in>set ?s2. is_word c \<and> lower_char c = c"
    using set_sub_runs[of is_space "CHR ''_''" False ?s1] 1
    by (auto simp: lower_char_underscore is_word_underscore)
  have 3: "\<forall>c\<in>set ?s3. is_word c \<and> lower_char c = c"
    using set_sub_runs[of "\<lambda>c. c = CHR ''_''" "CHR ''_''" False ?s2] 2
    by (auto simp: lower_char_underscore is_word_underscore)
  from a have "c \<in> set ?s3"
    using set_strip_chars[of "\<lambda>c. c = CHR ''_''" ?s3] by (auto simp: standardize_name_def Let_def)
  with 3 show ?thesis by blast
qed

lemma standardize_name_fix:
  assumes "\<forall>c\<in>set t. is_word c \<and> lower_char c = c"
    and "adj_free (\<lambda>c. c = CHR ''_'') t"
    and "t = [] \<or> (hd t \<noteq> CHR ''_'' \<and> last t \<noteq> CHR ''_'')"
  shows "standardize_name t = t"
proof -
  have 0: "lower t = t" using assms(1) by (simp add: lower_def map_idI)
  have 1: "sub_each (\<lambda>c. \<not> is_word c \<and> \<not> is_space c) t = t"
    using assms(1) by (simp add: sub_each_def map_idI)
  have 2: "sub_runs is_space (CHR ''_'') False t = t"
    using assms(1) by (intro sub_runs_none) (auto dest: is_word_not_space)
  have 3: "sub_runs (\<lambda>c. c = CHR ''_'') (CHR ''_'') False t = t"
    using assms(2) by (intro sub_runs_fix) auto
  have 4: "strip_chars (\<lambda>c. c = CHR ''_'') t = t"
    using assms(3) by (intro strip_chars_fix) auto
  show ?thesis by (simp add: standardize_name_def Let_def 0 1 2 3 4)
qed

lemma standardize_name_idem: "standardize_name (standardize_name s) = standardize_name s"
proof (rule standardize_name_fix)
  show "\<forall>c\<in>set (standardize_name s). is_word c \<and> lower_char c = c"
    using standardize_name_chars by blast
  show "adj_free (\<lambda>c. c = CHR ''_'') (standardize_name s)"
    unfolding standardize_name_def Let_def
    by (intro adj_free_strip) (simp add: adj_free_sub_runs)
  show "standardize_name s = [] \<or> (hd (standardize_name s) \<noteq> CHR ''_'' \<and> last (standardize_name s) \<noteq> CHR ''_'')"
    unfolding standardize_name_def Let_def
    using strip_chars_ends[of "\<lambda>c. c = CHR ''_''"] by blast
qed

text \<open>
  Claim C8. Column-name standardization is idempotent: standardizing a name that is
  already standardized returns it unchanged, and so standardizing the column names of a
  frame a second time returns the frame of the first pass.
\<close>

theorem standardize_column_names_idempotent:
  "standardize_name (standardize_name s) = standardize_name s
   \<and> on_ok (standardize_column_names d) standardize_column_names = standardize_column_names d"
  by (simp add: standardize_name_idem standardize_column_names_def on_ok_def reraise_as_def comp_def)

section \<open>Record-level validity and the quality score\<close>

lemma length_row_values: "length (row_values d i) = length (columns d)"
  by (simp add: row_values_def)

lemma record_counted_iff:
  "record_counted (zip (column_names d) (row_values d i)) \<longleftrightarrow> ''region'' \<in> set (column_names d)"
proof -
  have "map fst (mapped_dict (zip (column_names d) (row_values d i))) = column_names d"
    by (auto simp: mapped_dict_def column_names_def row_values_def map_fst_zip_take comp_def case_prod_unfold intro!: nth_equalityI)
  then show ?thesis by (simp add: record_counted_def)
qed

lemma iterrows_counted:
  "r \<in> set (iterrows d) \<Longrightarrow> record_counted r \<longleftrightarrow> ''region'' \<in> set (column_names d)"
  by (auto simp: iterrows_def record_counted_iff)

lemma valid_count_eq:
  "valid_count d = (if ''region'' \<in> set (column_names d) then len d else 0)"
proof -
  have "filter record_counted (iterrows d) = (if ''region'' \<in> set (column_names d) then iterrows d else [])"
    using iterrows_counted[of _ d] by (auto simp: filter_empty_conv)
  then show ?thesis by (simp add: valid_count_def iterrows_def)
qed

lemma column_names_take_rows: "column_names (take_rows ps d) = column_names d"
  by (simp add: column_names_def take_rows_def comp_def)

lemma len_take_rows: "len (take_rows ps d) = length ps"
  by (simp add: len_def take_rows_def)

lemma column_names_sample: "column_names (sample_data picks d) = column_names d"
  by (simp add: sample_data_def column_names_take_rows)

lemma len_sample: "valid_sample picks d \<Longrightarrow> len (sample_data picks d) = min 1000 (len d)"
  by (auto simp: sample_data_def len_take_rows valid_sample_def sample_size_def)

lemma validate_records_eq:
  assumes "valid_sample picks d"
  shows "validate_records picks d = (if ''region'' \<in> set (column_names d) then int (len d) else 0)"
proof (cases "len d > sample_size d")
  case True
  then have s: "sample_size d = 1000" by (auto simp: sample_size_def)
  show ?thesis using True assms
    by (simp add: validate_records_def valid_count_eq column_names_sample len_sample s py_int_def Let_def)
next
  case False
  then show ?thesis using assms
    by (simp add: validate_records_def valid_count_eq column_names_sample sample_data_def)
qed

lemma validate_Inr:
  "validate picks d = Inr rep \<Longrightarrow>
     total_records rep = int (len d) \<and> valid_records rep = validate_records picks d
     \<and> invalid_records rep = total_records rep - valid_records rep"
  by (auto simp: validate_def Let_def reraise_as_def on_ok_def split: prod.splits sum.splits)

text \<open>
  Claim C1 as stated fails: a sampled row whose region value is missing is counted valid.
  The frame has one row and a \<open>region\<close> column whose only cell is missing; the loop counts
  that row, and \<open>_validate_records\<close> returns 1.
\<close>

theorem validate_records_counts_missing_region:
  "iterrows frame_region_missing = [[(''region'', NaN)]]
   \<and> record_counted [(''region'', NaN)] \<and> \<not> has_region_value [(''region'', NaN)]
   \<and> validate_records [0] frame_region_missing = 1"
  by (simp add: frame_region_missing_def iterrows_def len_def column_names_def row_values_def
      record_counted_def mapped_dict_def has_region_value_def isna_def validate_records_def
      sample_size_def sample_data_def valid_count_def)

text \<open>
  Claim C1, amended. The sample has at most 1000 rows (exactly \<open>min 1000 (len d)\<close>); a
  sampled row is counted valid exactly when the dataset has a column named \<open>region\<close>,
  whether or not the row's value there is missing; with more than 1000 rows the result is
  the integer part of the row count times the valid fraction of the sample, otherwise it is
  the exact count of valid rows; and that result is the \<open>valid_records\<close> of the report.
\<close>

theorem validate_records_sampled:
  assumes "valid_sample picks d"
  shows "len (sample_data picks d) = min 1000 (len d)
    \<and> (\<forall>r \<in> set (iterrows (sample_data picks d)).
          record_counted r \<longleftrightarrow> ''region'' \<in> set (column_names d))
    \<and> (len d > 1000 \<longrightarrow>
          validate_records picks d
            = \<lfloor>(of_nat (len d) :: rat) * (of_nat (valid_count (sample_data picks d)) / of_nat (len (sample_data picks d)))\<rfloor>)
    \<and> (len d \<le> 1000 \<longrightarrow> validate_records picks d = int (valid_count d))
    \<and> (\<forall>rep. validate picks d = Inr rep \<longrightarrow> valid_records rep = validate_records picks d)"
proof (intro conjI)
  show "len (sample_data picks d) = min 1000 (len d)" using assms by (rule len_sample)
  show "\<forall>r \<in> set (iterrows (sample_data picks d)). record_counted r \<longleftrightarrow> ''region'' \<in> set (column_names d)"
    using iterrows_counted[of _ "sample_data picks d"] by (simp add: column_names_sample)
  show "len d > 1000 \<longrightarrow> validate_records picks d
            = \<lfloor>(of_nat (len d) :: rat) * (of_nat (valid_count (sample_data picks d)) / of_nat (len (sample_data picks d)))\<rfloor>"
    using assms by (auto simp: validate_records_def sample_size_def len_sample py_int_def Let_def)
  show "len d \<le> 1000 \<longrightarrow> validate_records picks d = int (valid_count d)"
    by (auto simp: validate_records_def sample_size_def sample_data_def)
  show "\<forall>rep. validate picks d = Inr rep \<longrightarrow> valid_records rep = validate_records picks d"
    using validate_Inr by blast
qed

theorem validate_records_sampled_witness:
  "valid_sample [1, 0] frame_two_regions
   \<and> len (sample_data [1, 0] frame_two_regions) = 2
   \<and> validate_records [1, 0] frame_two_regions = 2
   \<and> map_sum id valid_records (validate [1, 0] frame_two_regions) = Inr 2"
proof -
  have v: "valid_sample [1, 0] frame_two_regions"
    by (simp add: valid_sample_def frame_two_regions_def sample_size_def len_def)
  have r: "validate [1, 0] frame_two_regions \<noteq> Inl (ValidationError ''quality_validation'')"
    by (simp add: validate_def frame_two_regions_def validate_structure_def empty_def
        validate_business_rules_def check_years_def check_quantities_def check_regions_def
        get_col_def str_accessor_def is_str_def on_ok_def reraise_as_def Let_def
        split: prod.splits)
  have n: "len frame_two_regions = 2" by (simp add: frame_two_regions_def len_def)
  have c: "valid_count frame_two_regions = 2"
    by (simp add: valid_count_eq frame_two_regions_def column_names_def len_def)
  obtain rep where rep: "validate [1, 0] frame_two_regions = Inr rep"
    using r by (cases "validate [1, 0] frame_two_regions")
      (auto simp: validate_def reraise_as_def Let_def split: prod.splits sum.splits)
  show ?thesis
    using validate_records_sampled[OF v] v n c rep by simp
qed

text \<open>
  Claim C2. For every report that \<open>validate\<close> produces, the quality score lies in
  [0, 100], is 0 when \<open>total_records\<close> is 0 and \<open>100 * valid_records / total_records\<close>
  otherwise, and \<open>invalid_records\<close> is \<open>total_records - valid_records\<close>.
\<close>

theorem quality_score_bounds:
  assumes "valid_sample picks d" and "validate picks d = Inr rep"
  shows "0 \<le> data_quality_score rep \<and> data_quality_score rep \<le> 100
    \<and> (total_records rep = 0 \<longrightarrow> data_quality_score rep = 0)
    \<and> (total_records rep \<noteq> 0 \<longrightarrow>
          data_quality_score rep = 100 * of_int (valid_records rep) / of_int (total_records rep))
    \<and> invalid_records rep = total_records rep - valid_records rep"
proof -
  from validate_Inr[OF assms(2)] validate_records_eq[OF assms(1)]
  have t: "total_records rep = int (len d)"
    and v: "valid_records rep = (if ''region'' \<in> set (column_names d) then int (len d) else 0)"
    and i: "invalid_records rep = total_records rep - valid_records rep" by auto
  show ?thesis using t v i by (auto simp: data_quality_score_def)
qed

theorem quality_score_bounds_witness:
  "valid_sample [1, 0] frame_two_regions
   \<and> map_sum id data_quality_score (validate [1, 0] frame_two_regions) = Inr 100
   \<and> map_sum id invalid_records (validate [1, 0] frame_two_regions) = Inr 0"
proof -
  have v: "valid_sample [1, 0] frame_two_regions"
    by (simp add: valid_sample_def frame_two_regions_def sample_size_def len_def)
  obtain rep where rep: "validate [1, 0] frame_two_regions = Inr rep"
    by (cases "validate [1, 0] frame_two_regions")
      (auto simp: validate_def frame_two_regions_def validate_structure_def empty_def
        validate_business_rules_def check_years_def check_quantities_def check_regions_def
        get_col_def str_accessor_def is_str_def on_ok_def reraise_as_def Let_def
        split: prod.splits sum.splits)
  have t: "total_records rep = 2" and vr: "valid_records rep = 2"
    using validate_Inr[OF rep] validate_records_eq[OF v]
    by (simp_all add: frame_two_regions_def len_def column_names_def)
  show ?thesis
    using quality_score_bounds[OF v rep] v rep t vr by simp
qed

section \<open>The rule-based cleaning pass\<close>

lemma wf_lengths: "well_formed d \<Longrightarrow> c \<in> set (columns d) \<Longrightarrow> length (cells c) = len d"
  by (auto simp: well_formed_def len_def list_all_iff)

lemma get_col_SomeD: "get_col d n = Some c \<Longrightarrow> c \<in> set (columns d) \<and> cname c = n"
  by (auto simp: get_col_def find_Some_iff)

lemma get_col_None: "get_col d n = None \<longleftrightarrow> n \<notin> set (column_names d)"
  by (auto simp: get_col_def find_None_iff column_names_def)

lemma get_col_nth:
  assumes "get_col d n = Some c"
  shows "\<exists>j < length (columns d). columns d ! j = c \<and> column_names d ! j = n"
  using assms by (auto simp: get_col_def find_Some_iff column_names_def)

lemma row_lookup_Some:
  assumes "well_formed d" and "get_col d n = Some c"
  shows "map_of (zip (column_names d) (row_values d i)) n = Some (cells c ! i)"
proof -
  from get_col_nth[OF assms(2)] obtain j where j: "j < length (columns d)" "columns d ! j = c" "column_names d ! j = n"
    by blast
  have dist: "distinct (column_names d)" using assms(1) by (simp add: well_formed_def column_names_def)
  have len: "length (column_names d) = length (row_values d i)"
    by (simp add: column_names_def row_values_def)
  have "map_of (zip (column_names d) (row_values d i)) (column_names d ! j) = Some (row_values d i ! j)"
    using len dist j(1) by (intro map_of_zip_nth) (auto simp: row_values_def)
  then show ?thesis using j by (simp add: row_values_def)
qed

lemma row_lookup_None:
  "get_col d n = None \<Longrightarrow> map_of (zip (column_names d) (row_values d i)) n = None"
  by (auto simp: get_col_None map_of_eq_None_iff dest: set_zip_leftD)

lemma iterrows_lookup_Some:
  assumes "well_formed d" and "get_col d n = Some c"
  shows "map (\<lambda>r. f (map_of r n)) (iterrows d) = map (\<lambda>x. f (Some x)) (cells c)"
proof -
  have l: "length (cells c) = len d" using assms wf_lengths get_col_SomeD by blast
  show ?thesis
    by (rule nth_equalityI) (auto simp: iterrows_def l row_lookup_Some[OF assms])
qed

lemma iterrows_lookup_None:
  assumes "get_col d n = None"
  shows "map (\<lambda>r. f (map_of r n)) (iterrows d) = replicate (len d) (f None)"
  by (rule nth_equalityI) (auto simp: iterrows_def row_lookup_None[OF assms])

lemma bool_index_all: "length xs \<le> n \<Longrightarrow> bool_index (replicate n True) xs = xs"
  by (induction xs arbitrary: n) (auto simp: Suc_le_eq dest!: less_imp_Suc_add)

lemma select_rows_all: "well_formed d \<Longrightarrow> select_rows (replicate (len d) True) d = d"
proof -
  assume w: "well_formed d"
  have "map (\<lambda>c. c\<lparr>cells := bool_index (replicate (len d) True) (cells c)\<rparr>) (columns d) = columns d"
    using wf_lengths[OF w] by (intro map_idI) (simp add: bool_index_all)
  then show ?thesis by (simp add: select_rows_def bool_index_all len_def)
qed

lemma length_bool_index: "length xs = length ys \<Longrightarrow> length (bool_index m xs) = length (bool_index m ys)"
proof (induction m arbitrary: xs ys)
  case Nil
  then show ?case by simp
next
  case (Cons b m)
  then show ?case by (cases xs; cases ys) auto
qed

lemma set_bool_index: "set (bool_index m xs) \<subseteq> set xs"
  by (induction m xs rule: bool_index.induct) auto

lemma column_names_select_rows: "column_names (select_rows m d) = column_names d"
  by (simp add: column_names_def select_rows_def comp_def)

lemma in_set_bool_index: "x \<in> set (bool_index m xs) \<Longrightarrow> x \<in> set xs"
  using set_bool_index by fastforce

lemma distinct_bool_index: "distinct xs \<Longrightarrow> distinct (bool_index m xs)"
  by (induction m xs rule: bool_index.induct) (auto dest: in_set_bool_index)

lemma wf_select_rows:
  assumes "well_formed d"
  shows "well_formed (select_rows m d)"
proof -
  have 1: "length (bool_index m (cells c)) = length (bool_index m (index d))" if "c \<in> set (columns d)" for c
    using assms that by (intro length_bool_index) (simp add: well_formed_def list_all_iff)
  have 2: "\<not> is_str x" if "c \<in> set (columns d)" "dtype c \<noteq> ObjectDT" "x \<in> set (bool_index m (cells c))" for c x
    using assms that in_set_bool_index[of x m "cells c"] by (auto simp: well_formed_def list_all_iff)
  have 3: "distinct (map cname (columns d))" using assms by (simp add: well_formed_def)
  show ?thesis
    using 1 2 3 by (auto simp: well_formed_def select_rows_def list_all_iff comp_def)
qed

lemma get_col_select_rows:
  "get_col (select_rows m d) n = map_option (\<lambda>c. c\<lparr>cells := bool_index m (cells c)\<rparr>) (get_col d n)"
proof -
  have "find (\<lambda>c. cname c = n) (map (\<lambda>c. c\<lparr>cells := bool_index m (cells c)\<rparr>) cs)
      = map_option (\<lambda>c. c\<lparr>cells := bool_index m (cells c)\<rparr>) (find (\<lambda>c. cname c = n) cs)"
    for cs :: "column list"
    by (induction cs) auto
  then show ?thesis by (simp add: get_col_def select_rows_def)
qed

lemma numbers_only_select_rows: "numbers_only col d \<Longrightarrow> numbers_only col (select_rows m d)"
  by (auto simp: numbers_only_def get_col_select_rows list_ex_iff split: option.splits dest: in_set_bool_index)

lemma drop_step:
  assumes "well_formed d"
  shows "(if col \<in> set (column_names d) then dropna_subset col d else d) = drop_rows (missing_in col) d"
proof (cases "get_col d col")
  case None
  then show ?thesis
    using iterrows_lookup_None[OF None, of "\<lambda>v. \<not> (v = Some NaN)"] select_rows_all[OF assms]
    by (simp add: get_col_None drop_rows_def missing_in_def)
next
  case (Some c)
  then have "col \<in> set (column_names d)" using get_col_None[of d col] by auto
  then show ?thesis
    using iterrows_lookup_Some[OF assms Some, of "\<lambda>v. \<not> (v = Some NaN)"] Some
    by (simp add: dropna_subset_def drop_rows_def missing_in_def isna_def)
qed

lemma wf_drop_rows: "well_formed d \<Longrightarrow> well_formed (drop_rows P d)"
  by (simp add: drop_rows_def wf_select_rows)

lemma numbers_only_drop_rows: "numbers_only col d \<Longrightarrow> numbers_only col (drop_rows P d)"
  by (simp add: drop_rows_def numbers_only_select_rows)

lemma drop_missing_required_eq:
  "well_formed d \<Longrightarrow> drop_missing_required d
     = drop_rows (missing_in ''ano_titulacion'') (drop_rows (missing_in ''region'') d)"
proof -
  assume w: "well_formed d"
  have 1: "(if ''region'' \<in> set (column_names d) then dropna_subset ''region'' d else d)
      = drop_rows (missing_in ''region'') d" using w by (rule drop_step)
  have 2: "(if ''ano_titulacion'' \<in> set (column_names (drop_rows (missing_in ''region'') d))
            then dropna_subset ''ano_titulacion'' (drop_rows (missing_in ''region'') d)
            else drop_rows (missing_in ''region'') d)
      = drop_rows (missing_in ''ano_titulacion'') (drop_rows (missing_in ''region'') d)"
    using wf_drop_rows[OF w] by (rule drop_step)
  show ?thesis
    unfolding drop_missing_required_def required_columns_def fold_simps 1 2 by simp
qed

lemma compare_col_numbers:
  "\<not> list_ex is_str (cells c) \<Longrightarrow> compare_col P c = Inr (map (\<lambda>x. case x of Num r \<Rightarrow> P r | _ \<Rightarrow> False) (cells c))"
  by (simp add: compare_col_def)

lemma no_missing_select_rows: "no_missing col d \<Longrightarrow> no_missing col (select_rows m d)"
  by (auto simp: no_missing_def get_col_select_rows list_ex_iff split: option.splits dest: in_set_bool_index)

lemma no_missing_drop_rows: "no_missing col d \<Longrightarrow> no_missing col (drop_rows P d)"
  by (simp add: drop_rows_def no_missing_select_rows)

lemma bool_index_self: "x \<in> set (bool_index (map P xs) xs) \<Longrightarrow> P x"
  by (induction xs) (auto split: if_splits)

lemma no_missing_after_drop:
  assumes "well_formed d"
  shows "no_missing col (drop_rows (missing_in col) d)"
proof (cases "get_col d col")
  case None
  then show ?thesis by (simp add: no_missing_def drop_rows_def get_col_select_rows)
next
  case (Some c)
  have m: "map (\<lambda>r. \<not> missing_in col r) (iterrows d) = map (\<lambda>x. \<not> isna x) (cells c)"
    using iterrows_lookup_Some[OF assms Some, of "\<lambda>v. \<not> (v = Some NaN)"]
    by (simp add: missing_in_def isna_def)
  have "\<not> isna x" if "x \<in> set (bool_index (map (\<lambda>x. \<not> isna x) (cells c)) (cells c))" for x
    using bool_index_self[OF that] .
  then show ?thesis
    by (auto simp: no_missing_def drop_rows_def get_col_select_rows Some m list_ex_iff)
qed

lemma range_masks:
  assumes "\<not> list_ex is_str xs" and "\<not> list_ex isna xs"
  shows "map (\<lambda>x. case x of Num r \<Rightarrow> lo \<le> r \<and> r \<le> hi | _ \<Rightarrow> False) xs
       = map (\<lambda>x. \<not> (case x of Num r \<Rightarrow> r < lo \<or> hi < r | _ \<Rightarrow> False)) xs"
proof (rule map_cong[OF refl])
  fix x assume "x \<in> set xs"
  then have "\<not> is_str x" "\<not> isna x" using assms by (auto simp: list_ex_iff)
  then show "(case x of Num r \<Rightarrow> lo \<le> r \<and> r \<le> hi | _ \<Rightarrow> False)
           = (\<not> (case x of Num r \<Rightarrow> r < lo \<or> hi < r | _ \<Rightarrow> False))"
    by (cases x) (auto simp: is_str_def isna_def)
qed

lemma clean_years_cases:
  assumes "well_formed d" and "no_missing ''ano_titulacion'' d"
  shows "case clean_years d of
           Inl e \<Rightarrow> \<not> numbers_only ''ano_titulacion'' d
         | Inr d' \<Rightarrow> d' = drop_rows year_outside d"
proof (cases "get_col d ''ano_titulacion''")
  case None
  then show ?thesis
    using iterrows_lookup_None[OF None, of "\<lambda>v. \<not> (case v of None \<Rightarrow> False | Some x \<Rightarrow> (case x of Num y \<Rightarrow> y < 1990 \<or> y > 2030 | _ \<Rightarrow> False))"]
      select_rows_all[OF assms(1)]
    by (simp add: clean_years_def drop_rows_def year_outside_def)
next
  case (Some c)
  show ?thesis
  proof (cases "list_ex is_str (cells c)")
    case True
    then show ?thesis by (simp add: clean_years_def Some compare_col_def on_ok_def numbers_only_def)
  next
    case False
    have nm: "\<not> list_ex isna (cells c)" using assms(2) Some by (simp add: no_missing_def)
    have "map (\<lambda>r. \<not> year_outside r) (iterrows d)
        = map (\<lambda>x. \<not> (case x of Num y \<Rightarrow> y < 1990 \<or> 2030 < y | _ \<Rightarrow> False)) (cells c)"
      using iterrows_lookup_Some[OF assms(1) Some, of "\<lambda>v. \<not> (case v of None \<Rightarrow> False | Some x \<Rightarrow> (case x of Num y \<Rightarrow> y < 1990 \<or> y > 2030 | _ \<Rightarrow> False))"]
      by (simp add: year_outside_def)
    then have dr: "drop_rows year_outside d
        = select_rows (map (\<lambda>x. \<not> (case x of Num y \<Rightarrow> y < 1990 \<or> 2030 < y | _ \<Rightarrow> False)) (cells c)) d"
      by (simp only: drop_rows_def)
    have cy: "clean_years d
        = Inr (select_rows (map (\<lambda>x. case x of Num r \<Rightarrow> 1990 \<le> r \<and> r \<le> 2030 | _ \<Rightarrow> False) (cells c)) d)"
      by (simp add: clean_years_def Some compare_col_numbers[OF False] on_ok_def year_range_def)
    show ?thesis
      unfolding cy dr range_masks[OF False nm, of 1990 2030] by simp
  qed
qed

lemma clean_quantities_cases:
  assumes "well_formed d" and "no_missing ''cantidad_titulados'' d"
  shows "case clean_quantities d of
           Inl e \<Rightarrow> \<not> numbers_only ''cantidad_titulados'' d
         | Inr d' \<Rightarrow> d' = drop_rows quantity_outside d"
proof (cases "get_col d ''cantidad_titulados''")
  case None
  then show ?thesis
    using iterrows_lookup_None[OF None, of "\<lambda>v. \<not> (case v of None \<Rightarrow> False | Some x \<Rightarrow> (case x of Num y \<Rightarrow> y < 0 \<or> y > 10000 | _ \<Rightarrow> False))"]
      select_rows_all[OF assms(1)]
    by (simp add: clean_quantities_def drop_rows_def quantity_outside_def)
next
  case (Some c)
  show ?thesis
  proof (cases "list_ex is_str (cells c)")
    case True
    then show ?thesis by (simp add: clean_quantities_def Some compare_col_def on_ok_def numbers_only_def)
  next
    case False
    have nm: "\<not> list_ex isna (cells c)" using assms(2) Some by (simp add: no_missing_def)
    have "map (\<lambda>r. \<not> quantity_outside r) (iterrows d)
        = map (\<lambda>x. \<not> (case x of Num y \<Rightarrow> y < 0 \<or> 10000 < y | _ \<Rightarrow> False)) (cells c)"
      using iterrows_lookup_Some[OF assms(1) Some, of "\<lambda>v. \<not> (case v of None \<Rightarrow> False | Some x \<Rightarrow> (case x of Num y \<Rightarrow> y < 0 \<or> y > 10000 | _ \<Rightarrow> False))"]
      by (simp add: quantity_outside_def)
    then have dr: "drop_rows quantity_outside d
        = select_rows (map (\<lambda>x. \<not> (case x of Num y \<Rightarrow> y < 0 \<or> 10000 < y | _ \<Rightarrow> False)) (cells c)) d"
      by (simp only: drop_rows_def)
    have cq: "clean_quantities d
        = Inr (select_rows (map (\<lambda>x. case x of Num r \<Rightarrow> 0 \<le> r \<and> r \<le> 10000 | _ \<Rightarrow> False) (cells c)) d)"
      by (simp add: clean_quantities_def Some compare_col_numbers[OF False] on_ok_def quantity_range_def)
    show ?thesis
      unfolding cq dr range_masks[OF False nm, of 0 10000] by simp
  qed
qed

lemma clean_data_cases:
  assumes "well_formed d" and "no_missing ''cantidad_titulados'' d"
  shows "case clean_data d of
           Inl e \<Rightarrow> e = ValidationError ''data_cleaning''
                    \<and> \<not> (numbers_only ''ano_titulacion'' d \<and> numbers_only ''cantidad_titulados'' d)
         | Inr d' \<Rightarrow> d' = spec_clean_data d"
proof -
  let ?d1 = "drop_rows (missing_in ''ano_titulacion'') (drop_rows (missing_in ''region'') d)"
  let ?d2 = "drop_rows year_outside ?d1"
  have 1: "drop_missing_required d = ?d1" using assms(1) by (rule drop_missing_required_eq)
  have w0: "well_formed (drop_rows (missing_in ''region'') d)" using assms(1) by (rule wf_drop_rows)
  have w1: "well_formed ?d1" using w0 by (rule wf_drop_rows)
  have w2: "well_formed ?d2" using w1 by (rule wf_drop_rows)
  have n1: "no_missing ''ano_titulacion'' ?d1" using w0 by (rule no_missing_after_drop)
  have q2: "no_missing ''cantidad_titulados'' ?d2" using assms(2) by (intro no_missing_drop_rows)
  note y = clean_years_cases[OF w1 n1]
  note q = clean_quantities_cases[OF w2 q2]
  show ?thesis
  proof (cases "clean_years ?d1")
    case (Inl e)
    then have "\<not> numbers_only ''ano_titulacion'' ?d1" using y by simp
    then have "\<not> numbers_only ''ano_titulacion'' d" using numbers_only_drop_rows by blast
    then show ?thesis by (simp add: clean_data_def 1 Inl on_ok_def reraise_as_def)
  next
    case (Inr d2)
    then have d2: "d2 = ?d2" using y by simp
    show ?thesis
    proof (cases "clean_quantities ?d2")
      case (Inl e)
      then have "\<not> numbers_only ''cantidad_titulados'' ?d2" using q by simp
      then have "\<not> numbers_only ''cantidad_titulados'' d" using numbers_only_drop_rows by blast
      then show ?thesis using Inl by (simp add: clean_data_def 1 Inr d2 on_ok_def reraise_as_def)
    next
      case (Inr d3)
      then have "d3 = drop_rows quantity_outside ?d2" using q by simp
      then show ?thesis
        using Inr \<open>clean_years ?d1 = Inr d2\<close>
        by (simp add: clean_data_def 1 d2 on_ok_def reraise_as_def spec_clean_data_def)
    qed
  qed
qed

text \<open>
  Claim C3 as stated fails on two datasets. A text cell in \<open>ano_titulacion\<close> makes the
  range comparison raise, and \<open>clean_data\<close> leaves with \<open>ValidationError\<close> instead of a
  dataset. A row whose \<open>cantidad_titulados\<close> is missing is dropped by the quantity step,
  although the quantity is not outside [0, 10000] and \<open>cantidad_titulados\<close> is not a
  required column: the four drops of the specification keep that row.
\<close>

theorem clean_data_text_and_missing_quantity:
  "clean_data frame_text_year = Inl (ValidationError ''data_cleaning'')
   \<and> clean_data frame_missing_quantity
       = Inr \<lparr>index = [0],
              columns = [\<lparr>cname = ''ano_titulacion'', dtype = IntDT, cells = [Num 2020]\<rparr>,
                         \<lparr>cname = ''cantidad_titulados'', dtype = FloatDT, cells = [Num 10]\<rparr>]\<rparr>
   \<and> spec_clean_data frame_missing_quantity = frame_missing_quantity"
proof (intro conjI)
  show "clean_data frame_text_year = Inl (ValidationError ''data_cleaning'')"
    by (simp add: frame_text_year_def get_col_def compare_col_def is_str_def on_ok_def
      clean_data_def drop_missing_required_def required_columns_def column_names_def dropna_subset_def
      isna_def select_rows_def clean_years_def reraise_as_def)
  show "clean_data frame_missing_quantity
       = Inr \<lparr>index = [0],
              columns = [\<lparr>cname = ''ano_titulacion'', dtype = IntDT, cells = [Num 2020]\<rparr>,
                         \<lparr>cname = ''cantidad_titulados'', dtype = FloatDT, cells = [Num 10]\<rparr>]\<rparr>"
    by (simp add: frame_missing_quantity_def get_col_def compare_col_def is_str_def on_ok_def
      year_range_def quantity_range_def
      clean_data_def drop_missing_required_def required_columns_def column_names_def dropna_subset_def
      isna_def select_rows_def clean_years_def clean_quantities_def reraise_as_def drop_duplicates_def
      rows_def len_def row_values_def)
  show "spec_clean_data frame_missing_quantity = frame_missing_quantity"
    by (simp add: spec_clean_data_def drop_rows_def frame_missing_quantity_def iterrows_def len_def
        column_names_def row_values_def missing_in_def year_outside_def quantity_outside_def
        select_rows_def drop_duplicates_def rows_def)
qed

text \<open>
  Claim C3, amended. On a dataset with no repeated column name in which no
  \<open>cantidad_titulados\<close> is missing,
  \<open>clean_data\<close> either raises \<open>ValidationError\<close>, which it does only when \<open>ano_titulacion\<close>
  or \<open>cantidad_titulados\<close> holds a text cell, or returns the dataset with, in this order,
  the rows missing \<open>region\<close> dropped, the rows missing \<open>ano_titulacion\<close> dropped, the rows
  whose \<open>ano_titulacion\<close> is outside [1990, 2030] dropped, the rows whose
  \<open>cantidad_titulados\<close> is outside [0, 10000] dropped, and the exact duplicates of an
  earlier row dropped; without text in these two columns it returns. On the dataset with
  the graduation years 1985, 2023 and 2050 the business-rule check reports 2 records with
  invalid graduation years, also in the report of \<open>validate\<close>, and \<open>clean_data\<close> keeps the
  row of 2023 alone.
\<close>

theorem clean_data_order:
  "(well_formed d \<and> no_missing ''cantidad_titulados'' d \<longrightarrow>
      (case clean_data d of
         Inl e \<Rightarrow> e = ValidationError ''data_cleaning''
                  \<and> \<not> (numbers_only ''ano_titulacion'' d \<and> numbers_only ''cantidad_titulados'' d)
       | Inr d' \<Rightarrow> d' = spec_clean_data d))
   \<and> validate_business_rules frame_years = Inr [InvalidGraduationYears 2]
   \<and> map_sum id validation_errors (validate [0, 1, 2] frame_years)
       = Inr [MissingRequiredColumns [''region''], InvalidGraduationYears 2]
   \<and> clean_data frame_years
       = Inr \<lparr>index = [1], columns = [\<lparr>cname = ''ano_titulacion'', dtype = IntDT, cells = [Num 2023]\<rparr>]\<rparr>"
proof (intro conjI impI)
  assume "well_formed d \<and> no_missing ''cantidad_titulados'' d"
  then show "case clean_data d of
         Inl e \<Rightarrow> e = ValidationError ''data_cleaning''
                  \<and> \<not> (numbers_only ''ano_titulacion'' d \<and> numbers_only ''cantidad_titulados'' d)
       | Inr d' \<Rightarrow> d' = spec_clean_data d"
    using clean_data_cases by blast
next
  show b: "validate_business_rules frame_years = Inr [InvalidGraduationYears 2]"
    by (simp add: frame_years_def validate_business_rules_def check_years_def check_quantities_def
        check_regions_def get_col_def compare_col_def is_str_def on_ok_def year_range_def count_true_def)
  have s: "validate_structure frame_years = (False, [MissingRequiredColumns [''region'']])"
    by (simp add: validate_structure_def frame_years_def empty_def required_columns_def
        column_names_def lower_def lower_char_def isna_def)
  show "map_sum id validation_errors (validate [0, 1, 2] frame_years)
       = Inr [MissingRequiredColumns [''region''], InvalidGraduationYears 2]"
    by (simp add: validate_def s b on_ok_def reraise_as_def Let_def)
  show "clean_data frame_years
       = Inr \<lparr>index = [1], columns = [\<lparr>cname = ''ano_titulacion'', dtype = IntDT, cells = [Num 2023]\<rparr>]\<rparr>"
    by (simp add: frame_years_def get_col_def compare_col_def is_str_def on_ok_def year_range_def
      clean_data_def drop_missing_required_def required_columns_def column_names_def dropna_subset_def
      isna_def select_rows_def clean_years_def clean_quantities_def reraise_as_def drop_duplicates_def
      rows_def len_def row_values_def)
qed

theorem clean_data_order_witness:
  "well_formed frame_mixed \<and> no_missing ''cantidad_titulados'' frame_mixed
   \<and> numbers_only ''ano_titulacion'' frame_mixed \<and> numbers_only ''cantidad_titulados'' frame_mixed
   \<and> clean_data frame_mixed = Inr (spec_clean_data frame_mixed)
   \<and> index (spec_clean_data frame_mixed) = [0]"
proof -
  have w: "well_formed frame_mixed"
    by (simp add: well_formed_def frame_mixed_def is_str_def)
  have m: "no_missing ''cantidad_titulados'' frame_mixed"
    by (simp add: no_missing_def frame_mixed_def get_col_def isna_def)
  have a: "numbers_only ''ano_titulacion'' frame_mixed"
    by (simp add: numbers_only_def frame_mixed_def get_col_def is_str_def)
  have q: "numbers_only ''cantidad_titulados'' frame_mixed"
    by (simp add: numbers_only_def frame_mixed_def get_col_def is_str_def)
  have i: "index (spec_clean_data frame_mixed) = [0]"
    by (simp add: spec_clean_data_def drop_rows_def frame_mixed_def iterrows_def len_def
        column_names_def row_values_def missing_in_def year_outside_def quantity_outside_def
        select_rows_def drop_duplicates_def rows_def)
  show ?thesis
    using clean_data_order[of frame_mixed] w m a q i
    by (cases "clean_data frame_mixed") simp_all
qed

section \<open>The regional filter\<close>

lemma find_region_column_get_col:
  assumes "find_region_column d = Some rc"
  shows "\<exists>c. get_col d rc = Some c"
proof -
  have "rc \<in> set (column_names d)"
    using assms by (auto simp: find_region_column_def find_Some_iff)
  then show ?thesis using get_col_None[of d rc] by (cases "get_col d rc") auto
qed

lemma or_variation_length: "length (or_variation v msk xs) = min (length msk) (length xs)"
  by (simp add: or_variation_def)

lemma or_variation_nth:
  assumes "i < length msk" and "i < length xs"
  shows "or_variation v msk xs ! i
     = (case msk ! i of None \<Rightarrow> Some False | Some b \<Rightarrow> Some (b \<or> variation_match v (xs ! i)))"
  using assms by (simp add: or_variation_def)

lemma fold_or_variation_True:
  assumes "i < length (fold (\<lambda>variation msk. or_variation variation msk xs) vs msk)"
    and "fold (\<lambda>variation msk. or_variation variation msk xs) vs msk ! i = Some True"
    and "i < length xs"
  shows "(i < length msk \<and> msk ! i = Some True) \<or> (\<exists>v \<in> set vs. variation_match v (xs ! i))"
  using assms
proof (induction vs arbitrary: msk)
  case Nil
  then show ?case by simp
next
  case (Cons v vs)
  let ?m1 = "or_variation v msk xs"
  from Cons.prems have 1: "i < length (fold (\<lambda>variation msk. or_variation variation msk xs) vs ?m1)"
    and 2: "fold (\<lambda>variation msk. or_variation variation msk xs) vs ?m1 ! i = Some True" by simp_all
  from Cons.IH[OF 1 2 Cons.prems(3)]
  consider "i < length ?m1" "?m1 ! i = Some True" | "\<exists>v \<in> set vs. variation_match v (xs ! i)" by blast
  then show ?case
  proof cases
    case 1
    then have i: "i < length msk" by (simp add: or_variation_length)
    from 1(2) or_variation_nth[OF i Cons.prems(3), of v]
    show ?thesis using i by (cases "msk ! i") auto
  next
    case 2
    then show ?thesis by auto
  qed
qed

lemma bool_index_nth:
  "x \<in> set (bool_index ms xs) \<Longrightarrow> \<exists>i. i < length ms \<and> i < length xs \<and> ms ! i \<and> xs ! i = x"
proof (induction ms xs rule: bool_index.induct)
  case (1 b bs y ys)
  show ?case
  proof (cases "b \<and> x = y")
    case True
    then show ?thesis by (intro exI[of _ 0]) simp
  next
    case False
    with 1 have "x \<in> set (bool_index bs ys)" by (auto split: if_splits)
    with 1 obtain i where "i < length bs" "i < length ys" "bs ! i" "ys ! i = x"
      by (auto split: if_splits)
    then show ?thesis by (intro exI[of _ "Suc i"]) simp
  qed
qed simp_all

lemma initial_mask_not_True: "i < length (initial_mask d) \<Longrightarrow> initial_mask d ! i \<noteq> Some True"
  by (simp add: initial_mask_def)

lemma region_mask_cells:
  assumes "x \<in> set (bool_index (region_mask d vs xs) xs)"
  shows "\<exists>v \<in> set vs. variation_match v x"
proof -
  let ?f = "fold (\<lambda>variation msk. or_variation variation msk xs) vs (initial_mask d)"
  from bool_index_nth[OF assms] obtain i where i: "i < length (region_mask d vs xs)" "i < length xs"
    "region_mask d vs xs ! i" "xs ! i = x" by blast
  then have l: "i < length ?f" and t: "?f ! i = Some True" by (simp_all add: region_mask_def)
  from fold_or_variation_True[OF l t i(2)] initial_mask_not_True[of i d] i(4)
  show ?thesis by auto
qed

text \<open>
  Claim C5. For every dataset with an identifiable region column, the filter either
  raises (the column is not a text column that pandas gives the \<open>.str\<close> accessor) or
  returns the input restricted to some of its rows: the same columns, the cells of the
  retained rows untouched. Every retained row's region value is a string that, lowercased
  and trimmed, contains the lowercased form of one of the accepted spellings (the entries
  of the variations table for the target, and the target itself).
\<close>

theorem filter_by_region_subset:
  assumes "find_region_column d = Some rc"
  shows "\<exists>c. get_col d rc = Some c \<and>
           (case fst (filter_by_region vars d target) of
              Inl e \<Rightarrow> e = AttributeError \<and> str_accessor c = Inl AttributeError
            | Inr d' \<Rightarrow>
                \<exists>msk. d' = select_rows msk d
                  \<and> get_col d' rc = Some (c\<lparr>cells := bool_index msk (cells c)\<rparr>)
                  \<and> list_all (\<lambda>x. case x of
                                     Str s \<Rightarrow> list_ex (\<lambda>v. contains (strip (lower s)) (lower v))
                                                (variations_for vars target)
                                   | _ \<Rightarrow> False)
                       (bool_index msk (cells c)))"
proof -
  obtain c where c: "get_col d rc = Some c" using find_region_column_get_col[OF assms(1)] by blast
  let ?vs = "variations_for vars target"
  let ?m = "region_mask d ?vs (cells c)"
  show ?thesis
  proof (cases "str_accessor c")
    case (Inl e)
    then have "e = AttributeError" by (auto simp: str_accessor_def split: if_splits)
    with Inl show ?thesis
      by (simp add: filter_by_region_def assms c Let_def on_ok_def)
  next
    case (Inr xs)
    then have xs: "xs = cells c" by (auto simp: str_accessor_def split: if_splits)
    have r: "fst (filter_by_region vars d target) = Inr (select_rows ?m d)"
      using Inr xs by (simp add: filter_by_region_def assms c Let_def on_ok_def)
    have m: "case x of Str s \<Rightarrow> list_ex (\<lambda>v. contains (strip (lower s)) (lower v)) ?vs | _ \<Rightarrow> False"
      if "x \<in> set (bool_index ?m (cells c))" for x
    proof -
      from region_mask_cells[OF that] obtain v where "v \<in> set ?vs" "variation_match v x" by blast
      then show ?thesis by (cases x) (auto simp: variation_match_def list_ex_iff)
    qed
    show ?thesis
      using c m by (simp add: r get_col_select_rows list_all_iff) blast
  qed
qed

lemma frame_regions_filtered:
  "fst (filter_by_region initial_variations frame_regions region_target) =
     Inr \<lparr>index = [0, 1, 3, 7],
      columns =
        [\<lparr>cname = ''region'', dtype = ObjectDT,
          cells = [Str (''Los R'' @ [CHR 0xED] @ ''os''), Str ''Los Rios'',
                   Str (''Regi'' @ [CHR 0xF3] @ ''n de Los R'' @ [CHR 0xED] @ ''os, Chile''),
                   Str ''Los Rios'']\<rparr>,
         \<lparr>cname = ''cantidad_titulados'', dtype = IntDT,
          cells = [Num 45, Num 32, Num 28, Num 51]\<rparr>]\<rparr>"
  by code_simp

lemma find_region_column_frame_regions: "find_region_column frame_regions = Some ''region''"
  by code_simp

theorem filter_by_region_subset_witness:
  "find_region_column frame_regions = Some ''region''
   \<and> map_sum id index (fst (filter_by_region initial_variations frame_regions region_target)) = Inr [0, 1, 3, 7]
   \<and> (\<exists>c. get_col frame_regions ''region'' = Some c \<and>
           (case fst (filter_by_region initial_variations frame_regions region_target) of
              Inl e \<Rightarrow> e = AttributeError \<and> str_accessor c = Inl AttributeError
            | Inr d' \<Rightarrow>
                \<exists>msk. d' = select_rows msk frame_regions
                  \<and> get_col d' ''region'' = Some (c\<lparr>cells := bool_index msk (cells c)\<rparr>)
                  \<and> list_all (\<lambda>x. case x of
                                     Str s \<Rightarrow> list_ex (\<lambda>v. contains (strip (lower s)) (lower v))
                                                (variations_for initial_variations region_target)
                                   | _ \<Rightarrow> False)
                       (bool_index msk (cells c))))"
  using filter_by_region_subset[OF find_region_column_frame_regions, of initial_variations region_target]
  by (simp add: find_region_column_frame_regions frame_regions_filtered)


lemma validate_criteria_unknown:
  assumes "criteria \<noteq> []" and "set (map fst criteria) \<inter> set valid_keys = {}"
  shows "validate_criteria criteria"
proof -
  have "''region'' \<notin> set (map fst criteria)" using assms(2) by (auto simp: valid_keys_def)
  then have "map_of criteria ''region'' = None" by (simp add: map_of_eq_None_iff)
  then show ?thesis using assms(1) by (simp add: validate_criteria_def)
qed

lemma fold_filter_equal_absent:
  "set (map fst criteria) \<inter> set (column_names d) = {} \<Longrightarrow> fold (\<lambda>(key, v). filter_equal key v) criteria d = d"
  by (induction criteria) (auto simp: filter_equal_def)

text \<open>
  Claim C10. \<open>filter\<close> with empty criteria raises \<open>TransformationError\<close> (step
  \<open>criteria_validation\<close>); criteria whose keys are all unknown pass the validation; and
  when moreover none of the keys names a column, the input dataset is returned unchanged
  (and the variations table is left as it was).
\<close>

theorem filter_criteria:
  "filter_rf vars d [] = (Inl (TransformationError ''criteria_validation''), vars)
   \<and> (criteria \<noteq> [] \<and> set (map fst criteria) \<inter> set valid_keys = {} \<longrightarrow> validate_criteria criteria)
   \<and> (criteria \<noteq> [] \<and> set (map fst criteria) \<inter> set valid_keys = {}
        \<and> set (map fst criteria) \<inter> set (column_names d) = {}
       \<longrightarrow> filter_rf vars d criteria = (Inr d, vars))"
proof (intro conjI impI)
  show "filter_rf vars d [] = (Inl (TransformationError ''criteria_validation''), vars)"
    by (simp add: filter_rf_def validate_criteria_def)
next
  assume "criteria \<noteq> [] \<and> set (map fst criteria) \<inter> set valid_keys = {}"
  then show "validate_criteria criteria" by (simp add: validate_criteria_unknown)
next
  assume a: "criteria \<noteq> [] \<and> set (map fst criteria) \<inter> set valid_keys = {}
        \<and> set (map fst criteria) \<inter> set (column_names d) = {}"
  then have v: "validate_criteria criteria" by (simp add: validate_criteria_unknown)
  have "''region'' \<notin> set (map fst criteria)" using a by (auto simp: valid_keys_def)
  then have r: "map_of criteria ''region'' = None" by (simp add: map_of_eq_None_iff)
  show "filter_rf vars d criteria = (Inr d, vars)"
    using a by (simp add: filter_rf_def v r on_ok_def reraise_transformation_def fold_filter_equal_absent)
qed


theorem filter_criteria_witness:
  "[(''foo'', Str ''x'')] \<noteq> [] \<and> set (map fst [(''foo'', Str ''x'')]) \<inter> set valid_keys = {}
   \<and> set (map fst [(''foo'', Str ''x'')]) \<inter> set (column_names frame_regions) = {}
   \<and> validate_criteria [(''foo'', Str ''x'')]
   \<and> filter_rf initial_variations frame_regions [(''foo'', Str ''x'')] = (Inr frame_regions, initial_variations)"
proof -
  have 1: "set (map fst [(''foo'', Str ''x'')]) \<inter> set valid_keys = {}"
    by (simp add: valid_keys_def)
  have 2: "set (map fst [(''foo'', Str ''x'')]) \<inter> set (column_names frame_regions) = {}"
    by (simp add: column_names_def frame_regions_def)
  show ?thesis
    using filter_criteria[of initial_variations frame_regions "[(''foo'', Str ''x'')]"] 1 2 by simp
qed

section \<open>Loops over columns\<close>

lemma on_ok_Inr: "on_ok (Inr x) f = f x"
  by (simp add: on_ok_def)

lemma on_ok_Inl: "on_ok (Inl e) f = Inl e"
  by (simp add: on_ok_def)

lemma fold_on_ok_Inl: "fold (\<lambda>n r. on_ok r (f n)) ns (Inl e) = Inl e"
  by (induction ns) (auto simp: on_ok_Inl)

lemma find_unique:
  assumes "distinct (map cname cs)" and "find (\<lambda>c. cname c = n) cs = Some c" and "x \<in> set cs" and "cname x = n"
  shows "x = c"
proof -
  from assms(2) have "c \<in> set cs" "cname c = n" by (auto simp: find_Some_iff)
  with assms(1,3,4) show ?thesis by (metis distinct_map inj_onD)
qed

lemma map_filter_cong_set:
  "(\<And>x. x \<in> set xs \<Longrightarrow> f x = g x) \<Longrightarrow> List.map_filter f xs = List.map_filter g xs"
  by (induction xs) (auto split: option.splits)

lemma map_filter_filter_None:
  "(\<And>x. x \<in> set xs \<Longrightarrow> \<not> P x \<Longrightarrow> f x = None) \<Longrightarrow> List.map_filter f (filter P xs) = List.map_filter f xs"
  by (induction xs) (auto split: option.splits)

lemma map_filter_map_comp: "List.map_filter f (map h xs) = List.map_filter (f \<circ> h) xs"
  by (induction xs) (auto split: option.splits)

lemma map_filter_id: "List.map_filter Some xs = xs"
  by (induction xs) auto

lemma fold_apply_col:
  assumes "distinct ns" and "distinct (map cname cs)"
    and "\<And>c c'. treat c = Inr (Some c') \<Longrightarrow> cname c' = cname c"
    and "\<And>n cur. distinct (map cname (columns cur)) \<Longrightarrow> index cur = ix \<Longrightarrow> step n cur = apply_col treat n cur"
  shows "case fold (\<lambda>n r. on_ok r (step n)) ns (Inr \<lparr>index = ix, columns = cs\<rparr>) of
           Inl e \<Rightarrow> \<exists>c \<in> set cs. cname c \<in> set ns \<and> isl (treat c)
         | Inr d' \<Rightarrow> (\<forall>c \<in> set cs. cname c \<in> set ns \<longrightarrow> \<not> isl (treat c))
                     \<and> d' = \<lparr>index = ix, columns = List.map_filter (treated treat ns) cs\<rparr>"
  using assms(1,2)
proof (induction ns arbitrary: cs)
  case Nil
  have "List.map_filter (treated treat []) cs = List.map_filter Some cs"
    by (intro map_filter_cong_set) (simp add: treated_def)
  then have "List.map_filter (treated treat []) cs = cs" by (simp add: map_filter_id)
  then show ?case by simp
next
  case (Cons n ns)
  let ?cur = "\<lparr>index = ix, columns = cs\<rparr>"
  have st: "step n ?cur = apply_col treat n ?cur" using Cons.prems(2) by (intro assms(4)) simp_all
  have dns: "distinct ns" and n: "n \<notin> set ns" using Cons.prems(1) by auto
  show ?case
  proof (cases "find (\<lambda>c. cname c = n) cs")
    case None
    then have nn: "\<forall>c \<in> set cs. cname c \<noteq> n" by (auto simp: find_None_iff)
    have s: "step n ?cur = Inr ?cur" by (simp add: st apply_col_def get_col_def None)
    have eq: "List.map_filter (treated treat (n # ns)) cs = List.map_filter (treated treat ns) cs"
      using nn by (intro map_filter_cong_set) (auto simp: treated_def)
    show ?thesis
      using Cons.IH[OF dns Cons.prems(2)] nn
      by (auto simp: s on_ok_Inr on_ok_Inl eq split: sum.splits)
  next
    case (Some c)
    then have c: "c \<in> set cs" "cname c = n" by (auto simp: find_Some_iff)
    have uniq: "x = c" if "x \<in> set cs" "cname x = n" for x
      using find_unique[OF Cons.prems(2) Some that] .
    show ?thesis
    proof (cases "treat c")
      case (Inl e)
      then have "step n ?cur = Inl e" by (simp add: st apply_col_def get_col_def Some)
      then show ?thesis using c Inl by (auto simp: on_ok_Inr on_ok_Inl fold_on_ok_Inl)
    next
      case (Inr oc)
      show ?thesis
      proof (cases oc)
        case None
        let ?cs1 = "filter (\<lambda>x. cname x \<noteq> n) cs"
        have s: "step n ?cur = Inr \<lparr>index = ix, columns = ?cs1\<rparr>"
          by (simp add: st apply_col_def get_col_def Some Inr None drop_column_def)
        have d1: "distinct (map cname ?cs1)" using Cons.prems(2) by (simp add: distinct_map_filter)
        have "List.map_filter (treated treat (n # ns)) (filter (\<lambda>x. cname x \<noteq> n) cs)
              = List.map_filter (treated treat (n # ns)) cs"
          using uniq Inr None by (intro map_filter_filter_None) (auto simp: treated_def)
        moreover have "List.map_filter (treated treat (n # ns)) ?cs1 = List.map_filter (treated treat ns) ?cs1"
          by (intro map_filter_cong_set) (auto simp: treated_def)
        ultimately have eq: "List.map_filter (treated treat (n # ns)) cs = List.map_filter (treated treat ns) ?cs1"
          by simp
        have iff: "(\<exists>x \<in> set ?cs1. cname x \<in> set ns \<and> isl (treat x)) \<longleftrightarrow> (\<exists>x \<in> set cs. cname x \<in> set (n # ns) \<and> isl (treat x))"
          using uniq Inr by auto
        show ?thesis
          using Cons.IH[OF dns d1] iff eq
          by (auto simp: s on_ok_Inr on_ok_Inl split: sum.splits)
      next
        case (Some c')
        let ?cs1 = "map (\<lambda>x. if cname x = n then c' else x) cs"
        have nc': "cname c' = n" using assms(3)[of c c'] Inr Some c by simp
        have s: "step n ?cur = Inr \<lparr>index = ix, columns = ?cs1\<rparr>"
          using \<open>find (\<lambda>c. cname c = n) cs = Some c\<close>
          by (simp add: st apply_col_def get_col_def Inr Some update_column_def)
        have "map cname ?cs1 = map cname cs" using nc' by (induction cs) auto
        then have d1: "distinct (map cname ?cs1)" using Cons.prems(2) by (simp only:)
        have "List.map_filter (treated treat ns) ?cs1
              = List.map_filter (treated treat ns \<circ> (\<lambda>x. if cname x = n then c' else x)) cs"
          by (simp add: map_filter_map_comp)
        also have "\<dots> = List.map_filter (treated treat (n # ns)) cs"
          using uniq Inr Some n nc' by (intro map_filter_cong_set) (auto simp: treated_def)
        finally have eq: "List.map_filter (treated treat (n # ns)) cs = List.map_filter (treated treat ns) ?cs1"
          by simp
        have iff: "(\<exists>x \<in> set ?cs1. cname x \<in> set ns \<and> isl (treat x)) \<longleftrightarrow> (\<exists>x \<in> set cs. cname x \<in> set (n # ns) \<and> isl (treat x))"
          using uniq Inr n nc' by auto
        show ?thesis
          using Cons.IH[OF dns d1] iff eq
          by (auto simp: s on_ok_Inr on_ok_Inl split: sum.splits)
      qed
    qed
  qed
qed

section \<open>Missing values\<close>

lemma update_column_unique:
  assumes "distinct (map cname (columns cur))" and "get_col cur n = Some c"
  shows "update_column n f cur = update_column n (\<lambda>_. f c) cur"
proof -
  have "(if cname x = n then f x else x) = (if cname x = n then f c else x)"
    if "x \<in> set (columns cur)" for x
  proof (cases "cname x = n")
    case True
    have "x = c" using find_unique[OF assms(1) _ that True] assms(2) by (simp add: get_col_def)
    then show ?thesis by simp
  next
    case False
    then show ?thesis by simp
  qed
  then have "map (\<lambda>x. if cname x = n then f x else x) (columns cur)
      = map (\<lambda>x. if cname x = n then f c else x) (columns cur)"
    by (intro map_cong refl)
  then show ?thesis by (simp only: update_column_def)
qed

lemma update_column_same:
  assumes "distinct (map cname (columns cur))" and "get_col cur n = Some c"
  shows "update_column n (\<lambda>_. c) cur = cur"
proof -
  have "(if cname x = n then c else x) = x" if "x \<in> set (columns cur)" for x
  proof (cases "cname x = n")
    case True
    have "x = c" using find_unique[OF assms(1) _ that True] assms(2) by (simp add: get_col_def)
    then show ?thesis by simp
  next
    case False
    then show ?thesis by simp
  qed
  then have "map (\<lambda>x. if cname x = n then c else x) (columns cur) = columns cur"
    by (intro map_idI)
  then show ?thesis by (simp add: update_column_def)
qed

lemma in_identify_numeric:
  assumes "distinct (map cname (columns cur))" and "get_col cur n = Some c"
  shows "n \<in> set (identify_numeric_columns cur) \<longleftrightarrow> numeric_column c"
proof
  assume "n \<in> set (identify_numeric_columns cur)"
  then obtain x where x: "x \<in> set (columns cur)" "numeric_column x" "cname x = n"
    by (auto simp: identify_numeric_columns_def)
  have "x = c" using find_unique[OF assms(1) _ x(1,3)] assms(2) by (simp add: get_col_def)
  with x show "numeric_column c" by simp
next
  assume "numeric_column c"
  moreover have "c \<in> set (columns cur)" "cname c = n" using get_col_SomeD[OF assms(2)] by auto
  ultimately show "n \<in> set (identify_numeric_columns cur)"
    by (force simp: identify_numeric_columns_def)
qed

lemma handle_missing_column_apply:
  assumes "distinct (map cname (columns cur))" and "index cur = ix"
  shows "handle_missing_column stats n cur = apply_col (treat_missing stats (length ix)) n cur"
proof (cases "get_col cur n")
  case None
  then show ?thesis by (simp add: handle_missing_column_def apply_col_def split: option.splits)
next
  case (Some c)
  have nm: "cname c = n" using get_col_SomeD[OF Some] by simp
  have l: "len cur = length ix" using assms(2) by (simp add: len_def)
  note u = update_column_unique[OF assms(1) Some] update_column_same[OF assms(1) Some]
  show ?thesis
  proof (cases "map_of stats n")
    case None
    then show ?thesis using u(2) by (simp add: handle_missing_column_def apply_col_def Some treat_missing_def nm)
  next
    case (Some count)
    note g = \<open>get_col cur n = Some c\<close>
    note num = in_identify_numeric[OF assms(1) g]
    show ?thesis
    proof (cases "count > 0")
      case False
      then show ?thesis
        using u(2) by (simp add: handle_missing_column_def apply_col_def g Some treat_missing_def nm)
    next
      case True
      show ?thesis
      proof (cases "((of_nat count :: rat) / of_nat (length ix)) * 100 > 90")
        case True
        then show ?thesis
          using \<open>count > 0\<close> by (simp add: handle_missing_column_def apply_col_def g Some treat_missing_def nm l)
      next
        case False
        note pct = False
        show ?thesis
        proof (cases "numeric_column c")
          case True
          show ?thesis
          proof (cases "contains (lower n) ''cantidad''")
            case True
            then show ?thesis
              using \<open>count > 0\<close> pct \<open>numeric_column c\<close> u(1)[of "fillna (Num 0)"]
              by (simp add: handle_missing_column_def apply_col_def g Some treat_missing_def nm l num)
          next
            case False
            show ?thesis
            proof (cases "median_col c")
              case (Inl e)
              then show ?thesis
                using \<open>count > 0\<close> pct \<open>numeric_column c\<close> False
                by (simp add: handle_missing_column_def apply_col_def g Some treat_missing_def nm l num on_ok_def)
            next
              case (Inr m)
              then show ?thesis
                using \<open>count > 0\<close> pct \<open>numeric_column c\<close> False u(1)[of "fillna m"]
                by (simp add: handle_missing_column_def apply_col_def g Some treat_missing_def nm l num on_ok_def)
            qed
          qed
        next
          case False
          show ?thesis
          proof (cases "dtype c = ObjectDT")
            case True
            then show ?thesis
              using \<open>count > 0\<close> pct False
                u(1)[of "fillna (if length (mode (cells c)) > 0 then hd (mode (cells c)) else Str ''Unknown'')"]
              by (simp add: handle_missing_column_def apply_col_def g Some treat_missing_def nm l num Let_def)
          next
            case False
            then show ?thesis
              using \<open>count > 0\<close> pct \<open>\<not> numeric_column c\<close> u(2)
              by (simp add: handle_missing_column_def apply_col_def g Some treat_missing_def nm l num)
          qed
        qed
      qed
    qed
  qed
qed

lemma cname_fillna: "cname (fillna v c) = cname c"
  by (simp add: fillna_def)

lemma treat_missing_name:
  assumes "treat_missing stats n c = Inr (Some c')"
  shows "cname c' = cname c"
proof (cases "map_of stats (cname c)")
  case None
  with assms show ?thesis by (simp add: treat_missing_def)
next
  case (Some count)
  show ?thesis
  proof (cases "median_col c")
    case (Inl e)
    with assms Some show ?thesis
      by (simp add: treat_missing_def split: if_splits) (auto simp: cname_fillna)
  next
    case (Inr m)
    with assms Some show ?thesis
      by (simp add: treat_missing_def split: if_splits) (auto simp: cname_fillna)
  qed
qed

lemma missing_stats_lookup:
  assumes "distinct (map cname cs)" and "c \<in> set cs"
  shows "map_of (map (\<lambda>c. (cname c, missing_count c)) cs) (cname c) = Some (missing_count c)"
  using assms by (induction cs) (auto simp: rev_image_eqI)

lemma find_map_filter:
  assumes "distinct (map cname cs)" and "c \<in> set cs"
    and "\<And>x y. x \<in> set cs \<Longrightarrow> g x = Some y \<Longrightarrow> cname y = cname x"
  shows "find (\<lambda>x. cname x = cname c) (List.map_filter g cs) = g c"
  using assms
proof (induction cs)
  case Nil
  then show ?case by simp
next
  case (Cons a cs)
  show ?case
  proof (cases "a = c")
    case True
    have "find (\<lambda>x. cname x = cname c) (List.map_filter g cs) = None"
    proof -
      have "cname y \<noteq> cname c" if "y \<in> set (List.map_filter g cs)" for y
      proof -
        from that obtain x where "x \<in> set cs" "g x = Some y"
          by (auto simp: List.map_filter_def)
        then show ?thesis using Cons.prems(1) Cons.prems(3)[of x y] True by (auto simp: rev_image_eqI)
      qed
      then show ?thesis by (auto simp: find_None_iff)
    qed
    then show ?thesis using True Cons.prems(3)[of a] by (cases "g a") auto
  next
    case False
    then have c: "c \<in> set cs" using Cons.prems(2) by simp
    have ne: "cname a \<noteq> cname c" using Cons.prems(1) c by (auto simp: rev_image_eqI)
    have ih: "find (\<lambda>x. cname x = cname c) (List.map_filter g cs) = g c"
      using Cons.prems(1,3) c by (intro Cons.IH) auto
    show ?thesis using ih ne Cons.prems(3)[of a] by (cases "g a") auto
  qed
qed

lemma count_list_filter: "P w \<Longrightarrow> count_list (filter P xs) w = count_list xs w"
  by (induction xs) auto

lemma set_first_seen: "set (first_seen xs) = set xs"
  by (simp add: first_seen_def)

lemma fold_least_in: "fold (\<lambda>x y. if cell_less x y then x else y) rest m \<in> set (m # rest)"
  by (induction rest arbitrary: m) (auto split: if_splits)

lemma hd_mode_in_modes: "modes xs \<noteq> [] \<Longrightarrow> mode xs \<noteq> [] \<and> hd (mode xs) \<in> set (modes xs)"
proof -
  assume ne: "modes xs \<noteq> []"
  then obtain m rest where ms: "modes xs = m # rest" by (cases "modes xs") auto
  show ?thesis
    using fold_least_in[of rest m] ms
    by (auto simp: mode_def Let_def)
qed

lemma modes_Nil: "list_all isna xs \<Longrightarrow> mode xs = []"
proof -
  assume "list_all isna xs"
  then have "filter (\<lambda>x. \<not> isna x) xs = []" by (simp add: list_all_iff filter_empty_conv)
  then show ?thesis by (simp add: mode_def modes_def first_seen_def Let_def)
qed

lemma modes_is_mode:
  assumes "\<not> list_all isna xs"
  shows "modes xs \<noteq> [] \<and> (\<forall>v \<in> set (modes xs). is_mode v xs)"
proof -
  let ?vals = "filter (\<lambda>x. \<not> isna x) xs"
  let ?keys = "first_seen ?vals"
  let ?cnt = "count_list ?vals"
  let ?top = "fold max (map ?cnt ?keys) 0"
  have sk: "set ?keys = set ?vals" by (rule set_first_seen)
  have vne: "?vals \<noteq> []" using assms by (auto simp: list_all_iff filter_empty_conv)
  have top: "?top = Max (set (0 # map ?cnt ?keys))" by (simp only: Max.set_eq_fold)
  have fin: "finite (set (0 # map ?cnt ?keys))" by simp
  have ge: "?cnt w \<le> ?top" if "w \<in> set ?vals" for w
    unfolding top using that sk by (intro Max_ge) auto
  obtain w0 where w0: "w0 \<in> set ?vals" using vne by (cases ?vals) auto
  then have "?cnt w0 > 0" using count_list_0_iff[of ?vals w0] by (simp only: neq0_conv[symmetric]) simp
  then have tpos: "?top > 0" using ge[OF w0] by simp
  have "?top \<in> set (0 # map ?cnt ?keys)" unfolding top by (intro Max_in) auto
  then obtain k where k: "k \<in> set ?keys" "?cnt k = ?top" using tpos by auto
  have m: "modes xs = filter (\<lambda>k. ?cnt k = ?top) ?keys" by (simp add: modes_def Let_def)
  have ne: "modes xs \<noteq> []" using k by (auto simp: m filter_empty_conv)
  have "is_mode v xs" if "v \<in> set (modes xs)" for v
  proof -
    from that have v: "v \<in> set ?vals" "?cnt v = ?top" using sk by (auto simp: m)
    then have nv: "\<not> isna v" "v \<in> set xs" by auto
    have "isna w \<or> count_list xs w \<le> count_list xs v" if "w \<in> set xs" for w
    proof (cases "isna w")
      case True
      then show ?thesis by simp
    next
      case False
      then have "w \<in> set ?vals" using that by simp
      from ge[OF this] have "?cnt w \<le> ?cnt v" using v(2) by simp
      then show ?thesis
        using False nv(1) by (simp add: count_list_filter[of "\<lambda>x. \<not> isna x"])
    qed
    then show ?thesis using nv by (simp add: is_mode_def list_all_iff)
  qed
  with ne show ?thesis by blast
qed

lemma fill_value_mode:
  "\<exists>v. (if list_all isna xs then v = Str ''Unknown'' else is_mode v xs)
       \<and> (if length (mode xs) > 0 then hd (mode xs) else Str ''Unknown'') = v"
proof (cases "list_all isna xs")
  case True
  then show ?thesis by (simp add: modes_Nil)
next
  case False
  from modes_is_mode[OF False] hd_mode_in_modes[of xs] show ?thesis
    using False by auto
qed

lemma get_col_member:
  assumes "distinct (map cname (columns d))" and "c \<in> set (columns d)"
  shows "get_col d (cname c) = Some c"
proof -
  have "List.map_filter Some (columns d) = columns d" by (rule map_filter_id)
  then show ?thesis
    using find_map_filter[OF assms, of Some] by (simp add: get_col_def)
qed

lemma handle_missing_values_columns:
  assumes "well_formed d" and "handle_missing_values d = Inr d'"
  shows "index d' = index d
    \<and> (\<forall>c \<in> set (columns d).
          \<exists>oc. treat_missing (map (\<lambda>c. (cname c, missing_count c)) (columns d)) (len d) c = Inr oc
             \<and> get_col d' (cname c) = oc)"
proof -
  let ?stats = "map (\<lambda>c. (cname c, missing_count c)) (columns d)"
  let ?treat = "treat_missing ?stats (length (index d))"
  let ?ns = "column_names d"
  have dist: "distinct (map cname (columns d))" using assms(1) by (simp add: well_formed_def)
  have d: "\<lparr>index = index d, columns = columns d\<rparr> = d" by simp
  show ?thesis
  proof (cases "sum_list (map snd ?stats) > 0")
    case False
    then have z: "missing_count c = 0" if "c \<in> set (columns d)" for c
      using that by (auto simp: comp_def sum_list_eq_0_iff)
    have eq: "d' = d"
      using assms(2) unfolding handle_missing_values_def Let_def if_not_P[OF False]
      by (simp add: reraise_as_def)
    have "treat_missing ?stats (len d) c = Inr (Some c)" if "c \<in> set (columns d)" for c
      using missing_stats_lookup[OF dist that] z[OF that] by (simp add: treat_missing_def)
    then show ?thesis using eq get_col_member[OF dist] by auto
  next
    case True
    let ?r = "fold (\<lambda>col r. on_ok r (handle_missing_column ?stats col)) ?ns (Inr \<lparr>index = index d, columns = columns d\<rparr>)"
    have r: "?r = Inr d'"
      using assms(2) unfolding handle_missing_values_def Let_def if_P[OF True] d
      by (simp add: reraise_as_def split: sum.splits)
    have "case ?r of
           Inl e \<Rightarrow> \<exists>c \<in> set (columns d). cname c \<in> set ?ns \<and> isl (?treat c)
         | Inr d' \<Rightarrow> (\<forall>c \<in> set (columns d). cname c \<in> set ?ns \<longrightarrow> \<not> isl (?treat c))
                     \<and> d' = \<lparr>index = index d, columns = List.map_filter (treated ?treat ?ns) (columns d)\<rparr>"
    proof (rule fold_apply_col)
      show "distinct ?ns" using dist by (simp add: column_names_def)
      show "distinct (map cname (columns d))" by (rule dist)
      show "\<And>c c'. ?treat c = Inr (Some c') \<Longrightarrow> cname c' = cname c" by (rule treat_missing_name)
      show "\<And>n cur. distinct (map cname (columns cur)) \<Longrightarrow> index cur = index d \<Longrightarrow>
              handle_missing_column ?stats n cur = apply_col ?treat n cur"
        by (rule handle_missing_column_apply)
    qed
    then have F: "(\<forall>c \<in> set (columns d). cname c \<in> set ?ns \<longrightarrow> \<not> isl (?treat c))
                     \<and> d' = \<lparr>index = index d, columns = List.map_filter (treated ?treat ?ns) (columns d)\<rparr>"
      unfolding r by simp
    have mem: "cname c \<in> set ?ns" if "c \<in> set (columns d)" for c
      using that by (simp add: column_names_def)
    have ok: "\<not> isl (?treat c)" if "c \<in> set (columns d)" for c
      using F that mem[OF that] by blast
    have d': "d' = \<lparr>index = index d, columns = List.map_filter (treated ?treat ?ns) (columns d)\<rparr>"
      using F by blast
    have g: "get_col d' (cname c) = treated ?treat ?ns c" if "c \<in> set (columns d)" for c
    proof -
      have "find (\<lambda>x. cname x = cname c) (List.map_filter (treated ?treat ?ns) (columns d)) = treated ?treat ?ns c"
      proof (rule find_map_filter[OF dist that])
        fix x y assume "x \<in> set (columns d)" "treated ?treat ?ns x = Some y"
        then show "cname y = cname x"
          using treat_missing_name[of ?stats "length (index d)" x y]
          by (auto simp: treated_def split: if_splits sum.splits)
      qed
      then show ?thesis by (simp add: d' get_col_def)
    qed
    have "\<exists>oc. treat_missing ?stats (len d) c = Inr oc \<and> get_col d' (cname c) = oc"
      if "c \<in> set (columns d)" for c
    proof -
      from ok[OF that] obtain oc where oc: "?treat c = Inr oc" by (cases "?treat c") auto
      have "cname c \<in> set ?ns" using that by (simp add: column_names_def)
      then have "treated ?treat ?ns c = oc" using oc by (simp add: treated_def)
      then show ?thesis using g[OF that] oc by (simp add: len_def)
    qed
    then show ?thesis by (simp add: d')
  qed
qed

text \<open>
  What the missing-value step does to a column with missing values, when the step returns:
  the column is dropped above 90% missing, a column of the numeric list is filled with 0
  (name with \<open>cantidad\<close>) or with its median, and any other column of text is filled
  with one of its most frequent values.
\<close>

lemma handle_missing_values_frame_gaps:
  "handle_missing_values frame_gaps
     = Inr \<lparr>index = [0, 1, 2, 3],
        columns =
          [\<lparr>cname = ''sede'', dtype = ObjectDT,
              cells = [Str ''Valdivia'', Str ''Valdivia'', Str ''Valdivia'', Str ''La Union'']\<rparr>,
           \<lparr>cname = ''cantidad_x'', dtype = FloatDT, cells = [Num 5, Num 0, Num 7, Num 100]\<rparr>,
           \<lparr>cname = ''edad_promedio'', dtype = FloatDT, cells = [Num 20, Num 30, Num 30, Num 31]\<rparr>,
           \<lparr>cname = ''genero'', dtype = ObjectDT, cells = [Str ''F'', Str ''M'', Str ''M'', Str ''F'']\<rparr>]\<rparr>"
  by code_simp

lemma handle_missing_values_treatment:
  assumes "well_formed d" and "handle_missing_values d = Inr d'"
    and "c \<in> set (columns d)" and "missing_count c > 0"
  shows "if (of_nat (missing_count c) :: rat) / of_nat (len d) * 100 > 90
           then get_col d' (cname c) = None
         else if numeric_column c
           then (if contains (lower (cname c)) ''cantidad''
                 then get_col d' (cname c) = Some (fillna (Num 0) c)
                 else \<exists>m. median_col c = Inr m \<and> get_col d' (cname c) = Some (fillna m c))
         else if dtype c = ObjectDT
           then \<exists>v. is_mode v (cells c) \<and> get_col d' (cname c) = Some (fillna v c)
         else get_col d' (cname c) = Some c"
proof -
  let ?stats = "map (\<lambda>c. (cname c, missing_count c)) (columns d)"
  have dist: "distinct (map cname (columns d))" using assms(1) by (simp add: well_formed_def)
  from handle_missing_values_columns[OF assms(1,2)] assms(3)
  obtain oc where oc: "treat_missing ?stats (len d) c = Inr oc" "get_col d' (cname c) = oc" by blast
  have look: "map_of ?stats (cname c) = Some (missing_count c)"
    using missing_stats_lookup[OF dist assms(3)] by simp
  have some: "\<not> list_all isna (cells c)" if "\<not> (of_nat (missing_count c) :: rat) / of_nat (len d) * 100 > 90"
  proof
    assume a: "list_all isna (cells c)"
    then have "filter isna (cells c) = cells c" by (simp add: list_all_iff)
    then have "missing_count c = length (cells c)" by (simp add: missing_count_def)
    then have "missing_count c = len d" using wf_lengths[OF assms(1,3)] by simp
    then show False using that assms(4) by simp
  qed
  from fill_value_mode[of "cells c"] obtain v where
    v: "if list_all isna (cells c) then v = Str ''Unknown'' else is_mode v (cells c)"
       "(if length (mode (cells c)) > 0 then hd (mode (cells c)) else Str ''Unknown'') = v" by blast
  show ?thesis
    using oc look assms(4) some v
    by (auto simp: treat_missing_def split: if_splits sum.splits)
qed

section \<open>Columns whose names match both patterns\<close>

text \<open>
  Claim C7 fails on the code: a column whose name contains a textual keyword is not
  treated as text by every step. The column \<open>codigo_institucion\<close> (textual keyword
  \<open>institucion\<close>, numeric keyword \<open>codigo\<close>) is in the list of text columns and in the
  list of numeric columns; the missing-value step asks for the numeric list first and
  fills it with the median 3, where the mode is 1; the outlier step caps its value 500
  to the upper bound 7.
\<close>

theorem textual_name_treated_as_numeric:
  "identify_text_columns frame_codes_numbers = [''codigo_institucion'']
   \<and> identify_numeric_columns frame_codes_numbers = [''codigo_institucion'']
   \<and> mode [Num 1, NaN, Num 5, Num 9, Num 1] = [Num 1]
   \<and> handle_missing_values frame_codes_numbers
       = Inr \<lparr>index = [0, 1, 2, 3, 4],
              columns = [\<lparr>cname = ''codigo_institucion'', dtype = FloatDT,
                          cells = [Num 1, Num 3, Num 5, Num 9, Num 1]\<rparr>]\<rparr>
   \<and> handle_outliers frame_codes_outlier
       = Inr \<lparr>index = [0, 1, 2, 3, 4],
              columns = [\<lparr>cname = ''codigo_institucion'', dtype = FloatDT,
                          cells = [Num 1, Num 2, Num 3, Num 4, Num 7]\<rparr>]\<rparr>"
  by code_simp

text \<open>
  Claim C4 fails on the code: on a dataset whose column \<open>codigo_institucion\<close> holds text
  (the codes of the test fixture, as the type step leaves them), the outlier step takes
  that column as numeric, the quantile of text raises, and the step leaves with
  \<open>TransformationError\<close> instead of a dataset of the same rows. On numeric columns the
  step caps: 5100 becomes the upper bound 119.5, and the column named \<open>ano\<close> is untouched.
\<close>

theorem handle_outliers_text_codes:
  "handle_outliers frame_codes = Inl (TransformationError ''outlier_handling'')
   \<and> handle_outliers frame_quantities
       = Inr \<lparr>index = [0, 1, 2, 3, 4],
        columns =
          [\<lparr>cname = ''cantidad_titulados'', dtype = FloatDT,
              cells = [Num 45, Num 32, Num 67, Num 28, Num (239 / 2)]\<rparr>,
           \<lparr>cname = ''ano'', dtype = IntDT,
              cells = [Num 2023, Num 2023, Num 2022, Num 2023, Num 1800]\<rparr>]\<rparr>"
  by code_simp

text \<open>
  Claim C6 fails on the code: a text column \<open>codigo_institucion\<close> with one value of four
  missing is taken as numeric, the median of text raises, and the step leaves with
  \<open>TransformationError\<close> instead of filling the column with its mode. The same column
  under the name \<open>institucion\<close> is filled with its mode, and \<open>cantidad_titulados\<close> with 0.
\<close>

theorem handle_missing_values_text_codes:
  "handle_missing_values frame_codes_missing = Inl (TransformationError ''missing_values'')
   \<and> mode [Str ''A01'', NaN, Str ''A03'', Str ''A01''] = [Str ''A01'']
   \<and> handle_missing_values frame_institucion_missing
       = Inr \<lparr>index = [0, 1, 2, 3],
        columns =
          [\<lparr>cname = ''institucion'', dtype = ObjectDT,
              cells = [Str ''A01'', Str ''A01'', Str ''A03'', Str ''A01'']\<rparr>,
           \<lparr>cname = ''cantidad_titulados'', dtype = FloatDT,
              cells = [Num 45, Num 0, Num 67, Num 28]\<rparr>]\<rparr>"
  by code_simp

section \<open>The cleaning pipeline\<close>

lemma reraise_as_Inl: "reraise_as e' r = Inl e \<Longrightarrow> e = e'"
  by (cases r) (auto simp: reraise_as_def)

lemma reraise_transformation_id:
  "(\<And>e. r = Inl e \<Longrightarrow> \<exists>s. e = TransformationError s) \<Longrightarrow> reraise_transformation step r = r"
  by (cases r) (auto simp: reraise_transformation_def)

lemma step_errors:
  "standardize_column_names d = Inl e \<Longrightarrow> e = TransformationError ''column_standardization''"
  "clean_text_columns lib d = Inl e \<Longrightarrow> e = TransformationError ''text_cleaning''"
  "handle_missing_values d = Inl e \<Longrightarrow> e = TransformationError ''missing_values''"
  "standardize_data_types lib d = Inl e \<Longrightarrow> e = TransformationError ''data_type_standardization''"
  "remove_duplicates d = Inl e \<Longrightarrow> e = TransformationError ''duplicate_removal''"
  "handle_outliers d = Inl e \<Longrightarrow> e = TransformationError ''outlier_handling''"
  unfolding standardize_column_names_def clean_text_columns_def handle_missing_values_def
    standardize_data_types_def remove_duplicates_def handle_outliers_def
  by (erule reraise_as_Inl)+

lemma run_steps_Inl:
  "run_steps lib d = Inl e \<longleftrightarrow>
     standardize_column_names d = Inl e
     \<or> (\<exists>d1. standardize_column_names d = Inr d1 \<and>
          (clean_text_columns lib d1 = Inl e
           \<or> (\<exists>d2. clean_text_columns lib d1 = Inr d2 \<and>
                (handle_missing_values d2 = Inl e
                 \<or> (\<exists>d3. handle_missing_values d2 = Inr d3 \<and>
                      (standardize_data_types lib d3 = Inl e
                       \<or> (\<exists>d4. standardize_data_types lib d3 = Inr d4 \<and>
                            (remove_duplicates d4 = Inl e
                             \<or> (\<exists>d5. remove_duplicates d4 = Inr d5 \<and> handle_outliers d5 = Inl e)))))))))"
  unfolding run_steps_def on_ok_def
  by (cases "standardize_column_names d"; simp split: sum.splits) 

lemma run_steps_Inr:
  "run_steps lib d = Inr r \<longleftrightarrow>
     (\<exists>d1 d2 d3 d4 d5.
        standardize_column_names d = Inr d1 \<and> clean_text_columns lib d1 = Inr d2
        \<and> handle_missing_values d2 = Inr d3 \<and> standardize_data_types lib d3 = Inr d4
        \<and> remove_duplicates d4 = Inr d5 \<and> handle_outliers d5 = Inr r)"
  unfolding run_steps_def on_ok_def
  by (auto split: sum.splits)

lemma run_steps_error: "run_steps lib d = Inl e \<Longrightarrow> \<exists>s \<in> set step_names. e = TransformationError s"
  unfolding run_steps_Inl
  by (auto dest!: step_errors simp: step_names_def)

lemma validate_input_iff:
  "validate_input data \<longleftrightarrow> (\<exists>d. data = Some d \<and> index d \<noteq> [] \<and> columns d \<noteq> [])"
  by (cases data) (auto simp: validate_input_def empty_def len_def)

lemma transform_eq:
  "transform lib data =
     (case data of
        None \<Rightarrow> Inl (TransformationError ''input_validation'')
      | Some d \<Rightarrow> if validate_input (Some d) then run_steps lib d
                  else Inl (TransformationError ''input_validation''))"
proof (cases data)
  case None
  then show ?thesis by (simp add: transform_def validate_input_def reraise_transformation_def)
next
  case (Some d)
  have "reraise_transformation ''data_cleaning'' (run_steps lib d) = run_steps lib d"
    by (rule reraise_transformation_id) (use run_steps_error in blast)
  then show ?thesis
    using Some by (simp add: transform_def run_steps_def reraise_transformation_def)
qed

text \<open>
  Claim C9. \<open>validate_input\<close> accepts exactly the inputs that are not null and have at
  least one row and one column. On an input it rejects, \<open>transform\<close> raises
  \<open>TransformationError\<close> (step \<open>input_validation\<close>). On an input it accepts, \<open>transform\<close>
  returns a dataset exactly when the six steps succeed one after the other, and that
  dataset is the result of the last step; it raises exactly when one of the steps raises
  after its predecessors succeeded, with the error of that step. Every error of
  \<open>transform\<close> is a \<open>TransformationError\<close> that carries one of the step identifiers.
\<close>

theorem transform_raises:
  "(validate_input data \<longleftrightarrow> (\<exists>d. data = Some d \<and> index d \<noteq> [] \<and> columns d \<noteq> []))
   \<and> (\<not> validate_input data \<longrightarrow> transform lib data = Inl (TransformationError ''input_validation''))
   \<and> (validate_input (Some d) \<longrightarrow>
        (transform lib (Some d) = Inr r \<longleftrightarrow>
           (\<exists>d1 d2 d3 d4 d5.
              standardize_column_names d = Inr d1 \<and> clean_text_columns lib d1 = Inr d2
              \<and> handle_missing_values d2 = Inr d3 \<and> standardize_data_types lib d3 = Inr d4
              \<and> remove_duplicates d4 = Inr d5 \<and> handle_outliers d5 = Inr r))
        \<and> (transform lib (Some d) = Inl e \<longleftrightarrow>
             standardize_column_names d = Inl e
             \<or> (\<exists>d1. standardize_column_names d = Inr d1 \<and>
                  (clean_text_columns lib d1 = Inl e
                   \<or> (\<exists>d2. clean_text_columns lib d1 = Inr d2 \<and>
                        (handle_missing_values d2 = Inl e
                         \<or> (\<exists>d3. handle_missing_values d2 = Inr d3 \<and>
                              (standardize_data_types lib d3 = Inl e
                               \<or> (\<exists>d4. standardize_data_types lib d3 = Inr d4 \<and>
                                    (remove_duplicates d4 = Inl e
                                     \<or> (\<exists>d5. remove_duplicates d4 = Inr d5
                                            \<and> handle_outliers d5 = Inl e)))))))))))
   \<and> (transform lib data = Inl e \<longrightarrow> (\<exists>s \<in> set step_names. e = TransformationError s))"
proof (intro conjI impI)
  show "validate_input data \<longleftrightarrow> (\<exists>d. data = Some d \<and> index d \<noteq> [] \<and> columns d \<noteq> [])"
    by (rule validate_input_iff)
  show "transform lib data = Inl (TransformationError ''input_validation'')" if "\<not> validate_input data"
    using that by (cases data) (simp_all add: transform_eq)
  show "transform lib (Some d) = Inr r \<longleftrightarrow>
           (\<exists>d1 d2 d3 d4 d5.
              standardize_column_names d = Inr d1 \<and> clean_text_columns lib d1 = Inr d2
              \<and> handle_missing_values d2 = Inr d3 \<and> standardize_data_types lib d3 = Inr d4
              \<and> remove_duplicates d4 = Inr d5 \<and> handle_outliers d5 = Inr r)"
    if "validate_input (Some d)"
    using that by (simp add: transform_eq run_steps_Inr)
  show "transform lib (Some d) = Inl e \<longleftrightarrow>
             standardize_column_names d = Inl e
             \<or> (\<exists>d1. standardize_column_names d = Inr d1 \<and>
                  (clean_text_columns lib d1 = Inl e
                   \<or> (\<exists>d2. clean_text_columns lib d1 = Inr d2 \<and>
                        (handle_missing_values d2 = Inl e
                         \<or> (\<exists>d3. handle_missing_values d2 = Inr d3 \<and>
                              (standardize_data_types lib d3 = Inl e
                               \<or> (\<exists>d4. standardize_data_types lib d3 = Inr d4 \<and>
                                    (remove_duplicates d4 = Inl e
                                     \<or> (\<exists>d5. remove_duplicates d4 = Inr d5
                                            \<and> handle_outliers d5 = Inl e)))))))))"
    if "validate_input (Some d)"
    using that by (simp only: transform_eq option.case if_True run_steps_Inl)
  show "\<exists>s \<in> set step_names. e = TransformationError s" if "transform lib data = Inl e"
  proof (cases "validate_input data")
    case False
    then have "transform lib data = Inl (TransformationError ''input_validation'')"
      by (cases data) (simp_all add: transform_eq)
    with that show ?thesis by (simp add: step_names_def)
  next
    case True
    then obtain d0 where "data = Some d0" by (auto simp: validate_input_iff)
    with True that have "run_steps lib d0 = Inl e" by (simp add: transform_eq)
    then show ?thesis by (rule run_steps_error)
  qed
qed

lemma transform_frame_quantities:
  "transform lib_plain (Some frame_quantities)
     = Inr \<lparr>index = [0, 1, 2, 3, 4],
        columns =
          [\<lparr>cname = ''cantidad_titulados'', dtype = FloatDT,
              cells = [Num 45, Num 32, Num 67, Num 28, Num (239 / 2)]\<rparr>,
           \<lparr>cname = ''ano'', dtype = IntDT,
              cells = [Num 2023, Num 2023, Num 2022, Num 2023, Num 1800]\<rparr>]\<rparr>"
  by code_simp

lemma transform_frame_codes:
  "transform lib_plain (Some frame_codes) = Inl (TransformationError ''outlier_handling'')"
  by code_simp

theorem transform_raises_witness:
  "\<not> validate_input None
   \<and> transform lib_plain None = Inl (TransformationError ''input_validation'')
   \<and> validate_input (Some frame_quantities)
   \<and> (\<exists>d1 d2 d3 d4 d5.
         standardize_column_names frame_quantities = Inr d1 \<and> clean_text_columns lib_plain d1 = Inr d2
         \<and> handle_missing_values d2 = Inr d3 \<and> standardize_data_types lib_plain d3 = Inr d4
         \<and> remove_duplicates d4 = Inr d5
         \<and> handle_outliers d5 = transform lib_plain (Some frame_quantities))
   \<and> validate_input (Some frame_codes)
   \<and> transform lib_plain (Some frame_codes) = Inl (TransformationError ''outlier_handling'')"
proof -
  have n: "\<not> validate_input None" by (simp add: validate_input_def)
  have q: "validate_input (Some frame_quantities)"
    by (simp add: validate_input_def frame_quantities_def empty_def len_def)
  have c: "validate_input (Some frame_codes)"
    by (simp add: validate_input_def frame_codes_def empty_def len_def)
  note t = transform_raises[of "Some frame_quantities" lib_plain frame_quantities
      "\<lparr>index = [0, 1, 2, 3, 4],
        columns =
          [\<lparr>cname = ''cantidad_titulados'', dtype = FloatDT,
              cells = [Num 45, Num 32, Num 67, Num 28, Num (239 / 2)]\<rparr>,
           \<lparr>cname = ''ano'', dtype = IntDT,
              cells = [Num 2023, Num 2023, Num 2022, Num 2023, Num 1800]\<rparr>]\<rparr>"]
  have "\<exists>d1 d2 d3 d4 d5.
         standardize_column_names frame_quantities = Inr d1 \<and> clean_text_columns lib_plain d1 = Inr d2
         \<and> handle_missing_values d2 = Inr d3 \<and> standardize_data_types lib_plain d3 = Inr d4
         \<and> remove_duplicates d4 = Inr d5
         \<and> handle_outliers d5 = transform lib_plain (Some frame_quantities)"
    using t q by (simp add: transform_frame_quantities)
  then show ?thesis
    using transform_raises[of None lib_plain] n q c
    by (simp add: transform_frame_codes)
qed

end
